theory Spec2Isabelle
  imports Complex_Main "HOL-Library.Log_Nat" "HOL-Library.Product_Lexorder"
begin

section \<open>Python values\<close>

text \<open>
  Tool results, evidence entries and policy decisions are JSON-shaped Python values.
  A \<open>dict\<close> is an association list in insertion order; Python keeps one binding per
  key, so \<open>map_of\<close> reads a key the way \<open>d[k]\<close> and \<open>d.get(k)\<close> do.
  A Python \<open>float\<close> is the rational number the double stands for.
\<close>

datatype json =
    JNull
  | JBool bool
  | JInt int
  | JFloat rat
  | JStr string
  | JList "json list"
  | JObj "(string \<times> json) list"

type_synonym dict = "(string \<times> json) list"

text \<open>
  The exceptions that escape the modelled functions. \<open>FileNotFoundError\<close> is what
  \<open>open\<close> raises for a missing file, \<open>JSONDecodeError\<close> (a \<open>ValueError\<close>) what
  \<open>json.load\<close> raises for a file that is not JSON.
\<close>

datatype exn =
  TypeError | AttributeError | IndexError | ValueError | FileNotFoundError | JSONDecodeError

subsection \<open>Strings\<close>

text \<open>
  Characters are bytes; the keywords, patterns and identifiers of the program are ASCII.
  \<open>contains k s\<close> is Python's \<open>k in s\<close> on strings. \<open>lower\<close> and \<open>strip\<close> act on the
  ASCII letters and the ASCII white space, where Python's act on all of Unicode.
\<close>

fun starts_with :: "string \<Rightarrow> string \<Rightarrow> bool" where
  "starts_with [] s = True"
| "starts_with (k # ks) [] = False"
| "starts_with (k # ks) (c # cs) = (k = c \<and> starts_with ks cs)"

fun contains :: "string \<Rightarrow> string \<Rightarrow> bool" where
  "contains k [] = (k = [])"
| "contains k (c # cs) = (starts_with k (c # cs) \<or> contains k cs)"

definition lower_char :: "char \<Rightarrow> char" where
  "lower_char c =
     (case map_of (zip ''ABCDEFGHIJKLMNOPQRSTUVWXYZ'' ''abcdefghijklmnopqrstuvwxyz'') c of
        Some l \<Rightarrow> l
      | None \<Rightarrow> c)"

definition lower :: "string \<Rightarrow> string" where
  "lower s = map lower_char s"

definition is_digit :: "char \<Rightarrow> bool" where
  "is_digit c = (c \<in> set ''0123456789'')"

definition is_space :: "char \<Rightarrow> bool" where
  "is_space c = (c \<in> {CHR 0x09, CHR 0x0A, CHR 0x0B, CHR 0x0C, CHR 0x0D,
                        CHR 0x1C, CHR 0x1D, CHR 0x1E, CHR 0x1F, CHR '' ''})"

definition strip :: "string \<Rightarrow> string" where
  "strip s = rev (dropWhile is_space (rev (dropWhile is_space s)))"

text \<open>\<open>s.split(c)\<close> for a one-character separator: always at least one piece.\<close>

fun split_on :: "char \<Rightarrow> string \<Rightarrow> string list" where
  "split_on c [] = [[]]"
| "split_on c (x # xs) =
     (if x = c then [] # split_on c xs
      else (case split_on c xs of
              w # ws \<Rightarrow> (x # w) # ws
            | [] \<Rightarrow> [[x]]))"

text \<open>\<open>s.replace("Z", "+00:00")\<close>: every \<open>Z\<close> is replaced.\<close>

definition replace_Z :: "string \<Rightarrow> string" where
  "replace_Z s = concat (map (\<lambda>c. if c = CHR ''Z'' then ''+00:00'' else [c]) s)"

subsection \<open>Floats\<close>

text \<open>
  Python floats are IEEE doubles. Every arithmetic operation returns the double nearest
  to the exact result, ties to the even significand. \<open>fl\<close> is that rounding on the
  rationals: \<open>binade x\<close> is the exponent \<open>e\<close> with \<open>2^e \<le> |x| < 2^(e+1)\<close>, the
  doubles of that binade are the multiples of \<open>2^(e-52)\<close>, and \<open>rhe\<close> rounds to the
  nearest integer, ties to even. The exponent range is not bounded: the minutes between
  two datetimes are far from the overflow and underflow thresholds.
\<close>

definition rhe :: "rat \<Rightarrow> int" where
  "rhe y = (let f = \<lfloor>y\<rfloor>; r = y - of_int f
            in if r < 1 / 2 then f else if 1 / 2 < r then f + 1
               else if even f then f else f + 1)"

definition pow2 :: "int \<Rightarrow> rat" where
  "pow2 k = 2 powi k"

definition binade :: "rat \<Rightarrow> int" where
  "binade x = (let (p, q) = quotient_of \<bar>x\<bar>;
                   a = int (floorlog 2 (nat p)) - int (floorlog 2 (nat q))
               in if pow2 a \<le> \<bar>x\<bar> then a else a - 1)"

definition fl :: "rat \<Rightarrow> rat" where
  "fl x = (if x = 0 then 0
           else let u = pow2 (binade x - 52) in of_int (rhe (x / u)) * u)"

text \<open>
  \<open>timedelta.total_seconds() / 60\<close> for a timedelta of \<open>d\<close> microseconds: the integer
  division \<open>d / 10**6\<close> is correctly rounded, and so is the float division by 60.
\<close>

definition total_minutes :: "int \<Rightarrow> rat" where
  "total_minutes d = fl (fl (of_int d / 10 ^ 6) / 60)"

text \<open>
  \<open>round(x, 1)\<close> on a float: the exact value of \<open>x\<close> rounded to one decimal, ties to
  even, then the nearest double. \<open>int(x)\<close> truncates towards zero.
\<close>

definition py_round1 :: "rat \<Rightarrow> rat" where
  "py_round1 x = fl (of_int (rhe (x * 10)) / 10)"

definition py_int :: "rat \<Rightarrow> int" where
  "py_int x = (if 0 \<le> x then \<lfloor>x\<rfloor> else \<lceil>x\<rceil>)"

section \<open>Validation library\<close>

text \<open>
  \<open>validate_order_id\<close> is \<open>bool(re.match(r"^A\d{4}$", order_id))\<close>. In Python's
  \<open>re\<close>, \<open>$\<close> matches at the end of the string and also just before a newline that
  ends the string, so the pattern accepts \<open>A\<close>, four digits, and then either nothing
  or one final newline. The digits are the ASCII digits; \<open>\d\<close> on a Python string also
  accepts the decimal digits of other scripts.
\<close>

definition validate_order_id :: "string \<Rightarrow> bool" where
  "validate_order_id s =
     (case s of
        [] \<Rightarrow> False
      | c # rest \<Rightarrow>
          c = CHR ''A'' \<and> length (take 4 rest) = 4 \<and> list_all is_digit (take 4 rest) \<and>
          (drop 4 rest = [] \<or> drop 4 rest = [CHR 0x0A]))"

section \<open>The order store and the clock\<close>

record order =
  order_id :: string
  email :: string
  created_at :: string

text \<open>
  What a tool call can read: \<open>orders.json\<close>, which is missing, is not JSON, or parses
  to a list of orders, and the system clock, in microseconds of UTC.
\<close>

datatype orders_json = FileMissing | NotJSON | Parsed "order list"

record world =
  orders_file :: orders_json
  utcnow :: int

text \<open>
  A \<open>datetime\<close> is naive (a wall-clock reading, in microseconds) or aware (an instant
  in microseconds of UTC, with its UTC offset). Subtracting two naive or two aware
  datetimes gives a timedelta, here its microseconds; mixing them raises \<open>TypeError\<close>.
\<close>

datatype pydatetime = Naive int | Aware int int

fun dt_sub :: "pydatetime \<Rightarrow> pydatetime \<Rightarrow> exn + int" where
  "dt_sub (Naive a) (Naive b) = Inr (a - b)"
| "dt_sub (Aware a oa) (Aware b ob) = Inr (a - b)"
| "dt_sub (Naive a) (Aware b ob) = Inl TypeError"
| "dt_sub (Aware a oa) (Naive b) = Inl TypeError"

text \<open>
  The standard library's ISO-8601 functions are parameters of the model:
  \<open>fromisoformat\<close> returns the datetime or the message of the \<open>ValueError\<close> it
  raises, \<open>isoformat\<close> prints a datetime.
\<close>

record dt_lib =
  fromisoformat :: "string \<Rightarrow> string + pydatetime"
  isoformat :: "pydatetime \<Rightarrow> string"

section \<open>The cancellation policy tool\<close>

definition invalid_id_result :: "string \<Rightarrow> dict" where
  "invalid_id_result oid =
     [(''success'', JBool False),
      (''error'', JStr (''Invalid order ID format: '' @ oid @
                        ''. Order IDs should be in format A1234.''))]"

definition store_error_result :: dict where
  "store_error_result =
     [(''success'', JBool False),
      (''error'', JStr ''Unable to access order database. Please try again later.'')]"

definition not_found_result :: "string \<Rightarrow> dict" where
  "not_found_result oid =
     [(''success'', JBool False),
      (''error'', JStr (''Order '' @ oid @ '' not found in the system.''))]"

definition bad_timestamp_result :: "string \<Rightarrow> dict" where
  "bad_timestamp_result simulated_now =
     [(''success'', JBool False),
      (''error'', JStr (''Invalid timestamp format: '' @ simulated_now))]"

definition timestamp_error_result :: "string \<Rightarrow> dict" where
  "timestamp_error_result msg =
     [(''success'', JBool False),
      (''error'', JStr (''Error processing order timestamps: '' @ msg))]"

definition success_result :: "dt_lib \<Rightarrow> string \<Rightarrow> pydatetime \<Rightarrow> rat \<Rightarrow> dict" where
  "success_result lib oid now time_diff_minutes =
     [(''success'', JBool True),
      (''message'', JStr (''Order '' @ oid @ '' has been successfully canceled.'')),
      (''canceled_at'', JStr (isoformat lib now)),
      (''minutes_since_order'', JFloat (py_round1 time_diff_minutes))]"

definition blocked_result :: "rat \<Rightarrow> dict" where
  "blocked_result time_diff_minutes =
     [(''success'', JBool False),
      (''reason'', JStr ''Cancellation failed: Order was placed more than 60 minutes ago.''),
      (''minutes_since_order'', JInt (py_int time_diff_minutes)),
      (''policy'', JStr ''Orders can only be canceled within 60 minutes of placement.'')]"

text \<open>
  \<open>order_cancel(order_id, simulated_now)\<close>. \<open>simulated_now\<close> is \<open>Optional[str]\<close>; the
  test \<open>if simulated_now:\<close> takes the clock for \<open>None\<close> and for the empty string.
  A \<open>ValueError\<close> from parsing \<open>created_at\<close> is caught by the outer handler, one from
  parsing \<open>simulated_now\<close> by the inner one; the \<open>TypeError\<close> of a naive datetime
  minus an aware one is caught by neither and leaves the function.
\<close>

definition order_cancel :: "dt_lib \<Rightarrow> world \<Rightarrow> string \<Rightarrow> string option \<Rightarrow> exn + dict" where
  "order_cancel lib w oid simulated_now =
     (if \<not> validate_order_id oid then Inr (invalid_id_result oid)
      else case orders_file w of
        FileMissing \<Rightarrow> Inr store_error_result
      | NotJSON \<Rightarrow> Inr store_error_result
      | Parsed orders \<Rightarrow>
         (case find (\<lambda>rec. order_id rec = oid) orders of
            None \<Rightarrow> Inr (not_found_result oid)
          | Some order_to_cancel \<Rightarrow>
             (case fromisoformat lib (replace_Z (created_at order_to_cancel)) of
                Inl msg \<Rightarrow> Inr (timestamp_error_result msg)
              | Inr created \<Rightarrow>
                 (case (case simulated_now of
                          None \<Rightarrow> Inr (Aware (utcnow w) 0)
                        | Some sn \<Rightarrow>
                            if sn = [] then Inr (Aware (utcnow w) 0)
                            else (case fromisoformat lib (replace_Z sn) of
                                    Inl msg \<Rightarrow> Inl (bad_timestamp_result sn)
                                  | Inr t \<Rightarrow> Inr t)) of
                    Inl early \<Rightarrow> Inr early
                  | Inr now \<Rightarrow>
                     (case dt_sub now created of
                        Inl e \<Rightarrow> Inl e
                      | Inr d \<Rightarrow>
                          let time_diff_minutes = total_minutes d
                          in if time_diff_minutes \<le> 60
                             then Inr (success_result lib oid now time_diff_minutes)
                             else Inr (blocked_result time_diff_minutes))))))"

text \<open>
  The call as a step of the world: the tool opens \<open>orders.json\<close> for reading only, so
  the world after the call is the world before it.
\<close>

definition order_cancel_call ::
  "dt_lib \<Rightarrow> world \<Rightarrow> string \<Rightarrow> string option \<Rightarrow> (exn + dict) \<times> world" where
  "order_cancel_call lib w oid simulated_now = (order_cancel lib w oid simulated_now, w)"

section \<open>Product search\<close>

text \<open>
  A product is a dict of the catalog. The search reads its \<open>title\<close>, \<open>price\<close> and
  \<open>tags\<close>; \<open>other_keys\<close> holds the rest of the dict, so that two products are equal,
  as in \<open>p not in results\<close>, when the whole dicts are.
\<close>

record product =
  title :: string
  price :: rat
  tags :: "string list"
  other_keys :: "string \<rightharpoonup> json"

text \<open>
  The \<open>tags\<close> argument is declared \<open>Optional[str]\<close> (comma separated) and the body
  also accepts a list.
\<close>

datatype tags_arg = TagsStr string | TagsList "string list"

definition tags_list_of :: "tags_arg option \<Rightarrow> string list" where
  "tags_list_of tgs =
     (case tgs of
        None \<Rightarrow> []
      | Some (TagsStr s) \<Rightarrow> if s = [] then [] else map strip (split_on (CHR '','') s)
      | Some (TagsList l) \<Rightarrow> l)"

text \<open>\<open>price_max is not None and p["price"] > price_max\<close>.\<close>

definition over_price :: "int option \<Rightarrow> product \<Rightarrow> bool" where
  "over_price price_max p = (case price_max of None \<Rightarrow> False | Some m \<Rightarrow> of_int m < price p)"

text \<open>
  The first loop: the price check, then all requested tags when tags were given,
  otherwise the query as a case-insensitive substring of the title.
\<close>

definition strict_matches ::
  "product list \<Rightarrow> string \<Rightarrow> int option \<Rightarrow> string list \<Rightarrow> product list" where
  "strict_matches products query price_max tags_list =
     filter (\<lambda>p. \<not> over_price price_max p \<and>
                 (if tags_list \<noteq> [] then set tags_list \<subseteq> set (tags p)
                  else query \<noteq> [] \<and> contains (lower query) (lower (title p))))
            products"

text \<open>
  The second loop: products with at least one requested tag, until two results are
  held. The \<open>break\<close> is tested only for a product that was not yet a result.
\<close>

fun tag_fallback ::
  "int option \<Rightarrow> string list \<Rightarrow> product list \<Rightarrow> product list \<Rightarrow> product list" where
  "tag_fallback price_max tags_list results [] = results"
| "tag_fallback price_max tags_list results (p # ps) =
     (if over_price price_max p then tag_fallback price_max tags_list results ps
      else if p \<notin> set results then
        (let results' = (if \<exists>t \<in> set tags_list. t \<in> set (tags p)
                         then results @ [p] else results)
         in if 2 \<le> length results' then results'
            else tag_fallback price_max tags_list results' ps)
      else tag_fallback price_max tags_list results ps)"

text \<open>The third loop's candidates, sorted by price.\<close>

definition broader_results :: "int \<Rightarrow> product list \<Rightarrow> product list \<Rightarrow> product list" where
  "broader_results m products results =
     sort_key price
       (filter (\<lambda>p. price p \<le> of_int m \<and> p \<notin> set results \<and>
                     (contains ''dress'' (lower (title p)) \<or> ''midi'' \<in> set (tags p)))
               products)"

text \<open>
  \<open>sort_key\<close> of the source: \<open>(-tag_score, price)\<close> with tags, \<open>(price,)\<close> without;
  the one-element tuple orders as the pair with a constant first component does.
\<close>

definition relevance :: "string list \<Rightarrow> product \<Rightarrow> int \<times> rat" where
  "relevance tags_list p =
     (if tags_list \<noteq> [] then (- int (card (set tags_list \<inter> set (tags p))), price p)
      else (0, price p))"

text \<open>
  \<open>product_search(query, price_max, tags)\<close> over the catalog read from
  \<open>products.json\<close>. \<open>search_results\<close> is the list \<open>results\<close> after the three loops;
  the function returns \<open>sorted(results, key=sort_key)[:2]\<close>. Python's \<open>sorted\<close> is
  stable, as \<open>sort_key\<close> is.
\<close>

definition search_results ::
  "product list \<Rightarrow> string \<Rightarrow> int option \<Rightarrow> tags_arg option \<Rightarrow> product list" where
  "search_results products query price_max tgs =
     (let tags_list = tags_list_of tgs;
          results1 = strict_matches products query price_max tags_list;
          results2 = (if length results1 < 2 \<and> tags_list \<noteq> [] \<and> 1 < length tags_list
                      then tag_fallback price_max tags_list results1 products
                      else results1)
      in case price_max of
           None \<Rightarrow> results2
         | Some m \<Rightarrow>
             if length results2 < 2
             then results2 @ take (2 - length results2) (broader_results m products results2)
             else results2)"

definition product_search ::
  "product list \<Rightarrow> string \<Rightarrow> int option \<Rightarrow> tags_arg option \<Rightarrow> product list" where
  "product_search products query price_max tgs =
     take 2 (sort_key (relevance (tags_list_of tgs))
                      (search_results products query price_max tgs))"

section \<open>The agent state\<close>

record tool_call =
  name :: string
  args :: dict
  call_id :: string

datatype message =
    HumanMessage string
  | AIMessage string "tool_call list"
  | ToolMessage string string

fun content :: "message \<Rightarrow> string" where
  "content (HumanMessage c) = c"
| "content (AIMessage c calls) = c"
| "content (ToolMessage c cid) = c"

text \<open>
  \<open>AgentState\<close>. A channel that is absent from the state reads as the empty list
  (\<open>state.get("tools_called", [])\<close>), so the three list channels are lists.
\<close>

record agent_state =
  messages :: "message list"
  intent :: "string option"
  tools_called :: "string list"
  evidence :: "string list"
  policy_decision :: "dict option"
  final_message :: "string option"

text \<open>The input of a run: \<open>app.invoke({"messages": messages})\<close>.\<close>

definition initial_state :: "message list \<Rightarrow> agent_state" where
  "initial_state msgs =
     \<lparr>messages = msgs, intent = None, tools_called = [], evidence = [],
      policy_decision = None, final_message = None\<rparr>"

text \<open>
  \<open>state["messages"][-1].tool_calls\<close>: \<open>None\<close> when there is no last message or it
  is not the reasoning step's message.
\<close>

definition last_tool_calls :: "message list \<Rightarrow> tool_call list option" where
  "last_tool_calls msgs =
     (if msgs = [] then None
      else (case last msgs of
              AIMessage c calls \<Rightarrow> Some calls
            | _ \<Rightarrow> None))"

section \<open>The classifier\<close>

text \<open>
  \<open>re.search(r'\{.*\}', text, re.DOTALL)\<close>: from the first opening brace to the last
  closing brace after it. \<open>json.loads\<close> is a parameter of the model: the parsed value,
  or \<open>None\<close> for the \<open>JSONDecodeError\<close>.
\<close>

definition brace_match :: "string \<Rightarrow> string option" where
  "brace_match reply =
     (let m = rev (dropWhile (\<lambda>c. c \<noteq> CHR 0x7D) (rev (dropWhile (\<lambda>c. c \<noteq> CHR 0x7B) reply)))
      in if m = [] then None else Some m)"

definition extract_json_from_string :: "(string \<Rightarrow> json option) \<Rightarrow> string \<Rightarrow> json option" where
  "extract_json_from_string json_loads reply =
     (case brace_match reply of
        None \<Rightarrow> None
      | Some json_str \<Rightarrow> json_loads json_str)"

definition order_keywords :: "string list" where
  "order_keywords = [''order'', ''cancel'', ''cancellation'', ''a1001'', ''a1002'', ''a1003'',
                     ''order_id'', ''email'', ''refund'', ''return'']"

definition product_keywords :: "string list" where
  "product_keywords = [''dress'', ''product'', ''wedding'', ''midi'', ''price'', ''size'', ''eta'',
                       ''shipping'', ''available'', ''recommend'', ''compare'', ''zip'']"

definition guardrail_keywords :: "string list" where
  "guardrail_keywords = [''discount'', ''code'', ''coupon'', ''promo'', ''sale'']"

definition deterministic_keyword_routing :: "string \<Rightarrow> string option" where
  "deterministic_keyword_routing question =
     (let question_lower = lower question
      in if \<exists>k \<in> set order_keywords. contains k question_lower then Some ''order_help''
         else if \<exists>k \<in> set product_keywords. contains k question_lower then Some ''product_assist''
         else if \<exists>k \<in> set guardrail_keywords. contains k question_lower then Some ''other''
         else None)"

text \<open>Python's truth value of a JSON value.\<close>

fun truthy :: "json \<Rightarrow> bool" where
  "truthy JNull = False"
| "truthy (JBool b) = b"
| "truthy (JInt n) = (n \<noteq> 0)"
| "truthy (JFloat x) = (x \<noteq> 0)"
| "truthy (JStr s) = (s \<noteq> [])"
| "truthy (JList xs) = (xs \<noteq> [])"
| "truthy (JObj kv) = (kv \<noteq> [])"

text \<open>
  \<open>k in data\<close> for a string \<open>k\<close>: a key of a dict, a substring of a string, an
  element of a list; \<open>None\<close> is the \<open>TypeError\<close> of the values that are no containers.
\<close>

fun py_in :: "string \<Rightarrow> json \<Rightarrow> bool option" where
  "py_in k (JObj kv) = Some (k \<in> set (map fst kv))"
| "py_in k (JStr s) = Some (contains k s)"
| "py_in k (JList xs) = Some (JStr k \<in> set xs)"
| "py_in k JNull = None"
| "py_in k (JBool b) = None"
| "py_in k (JInt n) = None"
| "py_in k (JFloat x) = None"

definition valid_intents :: "string list" where
  "valid_intents = [''product_assist'', ''order_help'', ''other'']"

text \<open>
  The fallback of \<open>router_node\<close> on the generation's reply:
  \<open>if route_json and "destination" in route_json\<close>, then \<open>route_json["destination"]\<close>,
  which only a dict can answer for a string key.
\<close>

definition llm_destination :: "json option \<Rightarrow> exn + string" where
  "llm_destination route_json =
     (case route_json of
        None \<Rightarrow> Inr ''other''
      | Some j \<Rightarrow>
          if \<not> truthy j then Inr ''other''
          else (case py_in ''destination'' j of
                  None \<Rightarrow> Inl TypeError
                | Some False \<Rightarrow> Inr ''other''
                | Some True \<Rightarrow>
                    (case j of
                       JObj kv \<Rightarrow>
                         (case map_of kv ''destination'' of
                            Some (JStr destination) \<Rightarrow>
                              if destination \<in> set valid_intents then Inr destination
                              else Inr ''other''
                          | _ \<Rightarrow> Inr ''other'')
                     | _ \<Rightarrow> Inl TypeError)))"

text \<open>
  \<open>router_node(state)\<close>: the intent it writes. The generation capability is the
  parameter \<open>llm\<close>, from the question to the reply's text.
\<close>

definition router_node ::
  "(string \<Rightarrow> json option) \<Rightarrow> (string \<Rightarrow> string) \<Rightarrow> agent_state \<Rightarrow> exn + string" where
  "router_node json_loads llm state =
     (if messages state = [] then Inl IndexError
      else let question = content (last (messages state))
           in case deterministic_keyword_routing question of
                Some deterministic_route \<Rightarrow> Inr deterministic_route
              | None \<Rightarrow> llm_destination (extract_json_from_string json_loads (llm question)))"

section \<open>The policy guard\<close>

text \<open>
  The test of the scan, \<open>"success" in data and "reason" in data\<close>; a \<open>TypeError\<close> is
  caught and the scan continues.
\<close>

definition cancel_shaped :: "json \<Rightarrow> bool" where
  "cancel_shaped data =
     (case py_in ''success'' data of
        Some True \<Rightarrow> (case py_in ''reason'' data of Some True \<Rightarrow> True | _ \<Rightarrow> False)
      | _ \<Rightarrow> False)"

fun find_cancel_output :: "(string \<Rightarrow> json option) \<Rightarrow> string list \<Rightarrow> json option" where
  "find_cancel_output json_loads [] = None"
| "find_cancel_output json_loads (item # rest) =
     (case json_loads item of
        None \<Rightarrow> find_cancel_output json_loads rest
      | Some data \<Rightarrow>
          if cancel_shaped data then Some data else find_cancel_output json_loads rest)"

text \<open>
  \<open>policy_guard_node(state)\<close>: the policy decision it writes. \<open>.get\<close> is a method of
  dicts only.
\<close>

definition policy_guard_node ::
  "(string \<Rightarrow> json option) \<Rightarrow> agent_state \<Rightarrow> exn + dict option" where
  "policy_guard_node json_loads state =
     (if intent state \<noteq> Some ''order_help'' then Inr None
      else if evidence state = [] then Inr None
      else case find_cancel_output json_loads (evidence state) of
        None \<Rightarrow> Inr None
      | Some cancel_tool_output \<Rightarrow>
          if \<not> truthy cancel_tool_output then Inr None
          else (case cancel_tool_output of
                  JObj kv \<Rightarrow>
                    if map_of kv ''success'' = Some (JBool False)
                    then Inr (Some [(''cancel_allowed'', JBool False),
                                    (''reason'', case map_of kv ''reason'' of
                                                   Some v \<Rightarrow> v | None \<Rightarrow> JNull)])
                    else Inr (Some [(''cancel_allowed'', JBool True)])
                | _ \<Rightarrow> Inl AttributeError))"

section \<open>The tool executor and the graph\<close>

text \<open>
  \<open>tool_executor_node\<close> returns an update of three channels. \<open>ToolNode\<close> runs the
  requested tools in request order and returns one \<open>ToolMessage\<close> per request;
  \<open>run_tool\<close> gives the serialized result of a request.
\<close>

record tool_update =
  upd_messages :: "message list"
  upd_evidence :: "string list"
  upd_tools_called :: "string list"

definition tool_node :: "(tool_call \<Rightarrow> string) \<Rightarrow> tool_call list \<Rightarrow> message list" where
  "tool_node run_tool calls = map (\<lambda>c. ToolMessage (run_tool c) (call_id c)) calls"

definition tool_executor_node :: "(tool_call \<Rightarrow> string) \<Rightarrow> agent_state \<Rightarrow> tool_update option" where
  "tool_executor_node run_tool state =
     (case last_tool_calls (messages state) of
        None \<Rightarrow> None
      | Some tool_calls \<Rightarrow>
          let tool_messages = tool_node run_tool tool_calls
          in Some \<lparr>upd_messages = tool_messages,
                   upd_evidence = map content tool_messages,
                   upd_tools_called = map name tool_calls\<rparr>)"

text \<open>
  The reducers of \<open>AgentState\<close>: \<open>messages\<close>, \<open>tools_called\<close> and \<open>evidence\<close> are
  annotated with \<open>operator.add\<close>, so an update is appended to the channel.
\<close>

definition apply_tool_update :: "agent_state \<Rightarrow> tool_update \<Rightarrow> agent_state" where
  "apply_tool_update state u =
     state\<lparr>messages := messages state @ upd_messages u,
           evidence := evidence state @ upd_evidence u,
           tools_called := tools_called state @ upd_tools_called u\<rparr>"

text \<open>The reasoning step's update \<open>{"messages": [response]}\<close>, appended likewise.\<close>

definition apply_agent_response :: "agent_state \<Rightarrow> message \<Rightarrow> agent_state" where
  "apply_agent_response state response = state\<lparr>messages := messages state @ [response]\<rparr>"

datatype node = Router | Agent | ToolExecutor | PolicyGuard | Responder | END

text \<open>The conditional edges. \<open>None\<close>: the edge function raises or names no edge.\<close>

definition route_after_router :: "agent_state \<Rightarrow> node option" where
  "route_after_router state =
     (if intent state = Some ''product_assist'' then Some Agent
      else if intent state = Some ''order_help'' then Some Agent
      else if intent state = Some ''other'' then Some Responder
      else None)"

definition should_continue :: "agent_state \<Rightarrow> node option" where
  "should_continue state =
     (case last_tool_calls (messages state) of
        None \<Rightarrow> None
      | Some calls \<Rightarrow> if calls \<noteq> [] then Some ToolExecutor else Some Responder)"

definition route_after_tools :: "agent_state \<Rightarrow> node" where
  "route_after_tools state =
     (if ''order_cancel'' \<in> set (tools_called state) then PolicyGuard else Agent)"

text \<open>
  One step of the compiled graph: a node runs, its update is merged into the state, and
  the edge out of the node is chosen on the merged state. What the generation capability
  replies and what the tools return are not determined by the state, so a step is a
  relation.
\<close>

inductive step ::
  "(string \<Rightarrow> json option) \<Rightarrow> node \<times> agent_state \<Rightarrow> node \<times> agent_state \<Rightarrow> bool"
  for json_loads :: "string \<Rightarrow> json option" where
  step_router:
    "router_node json_loads llm s = Inr i \<Longrightarrow> s' = s\<lparr>intent := Some i\<rparr> \<Longrightarrow>
     route_after_router s' = Some n \<Longrightarrow> step json_loads (Router, s) (n, s')"
| step_agent:
    "s' = apply_agent_response s (AIMessage reply calls) \<Longrightarrow> should_continue s' = Some n \<Longrightarrow>
     step json_loads (Agent, s) (n, s')"
| step_tools:
    "tool_executor_node run_tool s = Some u \<Longrightarrow> s' = apply_tool_update s u \<Longrightarrow>
     step json_loads (ToolExecutor, s) (route_after_tools s', s')"
| step_guard:
    "policy_guard_node json_loads s = Inr d \<Longrightarrow>
     step json_loads (PolicyGuard, s) (Responder, s\<lparr>policy_decision := d\<rparr>)"
| step_responder:
    "step json_loads (Responder, s) (END, s\<lparr>final_message := Some reply\<rparr>)"

text \<open>The configurations of the run that starts from the messages \<open>msgs\<close>.\<close>

inductive run ::
  "(string \<Rightarrow> json option) \<Rightarrow> message list \<Rightarrow> node \<times> agent_state \<Rightarrow> bool"
  for json_loads :: "string \<Rightarrow> json option" and msgs :: "message list" where
  run_start: "run json_loads msgs (Router, initial_state msgs)"
| run_step: "run json_loads msgs c \<Longrightarrow> step json_loads c c' \<Longrightarrow> run json_loads msgs c'"

text \<open>
  A tool round: the reasoning step replies with the text and batch \<open>(text, calls)\<close>,
  the tool executor runs the batch. \<open>tool_rounds\<close> runs a list of rounds in sequence.
\<close>

definition tool_round ::
  "(tool_call \<Rightarrow> string) \<Rightarrow> agent_state \<Rightarrow> string \<times> tool_call list \<Rightarrow> agent_state option" where
  "tool_round run_tool state reply =
     (let s1 = apply_agent_response state (AIMessage (fst reply) (snd reply))
      in case tool_executor_node run_tool s1 of
           None \<Rightarrow> None
         | Some u \<Rightarrow> Some (apply_tool_update s1 u))"

fun tool_rounds ::
  "(tool_call \<Rightarrow> string) \<Rightarrow> agent_state \<Rightarrow> (string \<times> tool_call list) list \<Rightarrow>
   agent_state option" where
  "tool_rounds run_tool state [] = Some state"
| "tool_rounds run_tool state (reply # replies) =
     (case tool_round run_tool state reply of
        None \<Rightarrow> None
      | Some state' \<Rightarrow> tool_rounds run_tool state' replies)"

text \<open>
  Two calls in sequence with the same arguments; the clock reads \<open>t\<close> at the second
  call. The results of both calls and the world after the second are returned.
\<close>

definition cancel_twice ::
  "dt_lib \<Rightarrow> world \<Rightarrow> int \<Rightarrow> string \<Rightarrow> string option \<Rightarrow> (exn + dict) \<times> (exn + dict) \<times> world" where
  "cancel_twice lib w t oid simulated_now =
     (let (r1, w1) = order_cancel_call lib w oid simulated_now;
          (r2, w2) = order_cancel_call lib (w1\<lparr>utcnow := t\<rparr>) oid simulated_now
      in (r1, r2, w2))"

section \<open>Evidence of the tools\<close>

text \<open>
  What \<open>json.loads\<close> gives on the evidence entry of a tool result that is not a blocked
  cancellation: \<open>size_recommender\<close> and \<open>eta\<close> return prose, which is no JSON;
  \<open>product_search\<close> returns a list of product dicts; \<open>order_lookup\<close> returns the order
  or a dict with the one key \<open>error\<close>; \<open>order_cancel\<close> returns any of its results but
  the blocked one.
\<close>

inductive tool_evidence :: "json option \<Rightarrow> bool" where
  text_result: "tool_evidence None"
| search_result: "tool_evidence (Some (JList (map JObj products)))"
| lookup_found:
    "tool_evidence (Some (JObj [(''order_id'', JStr (order_id (rec :: order))),
                                (''email'', JStr (email rec)),
                                (''created_at'', JStr (created_at rec))]))"
| lookup_error: "tool_evidence (Some (JObj [(''error'', JStr msg)]))"
| cancel_result:
    "order_cancel lib w oid simulated_now = Inr r \<Longrightarrow> \<forall>m. r \<noteq> blocked_result m \<Longrightarrow>
     tool_evidence (Some (JObj r))"

section \<open>The earlier copy of the program\<close>

text \<open>
  The repository also holds an earlier copy of the program under
  \<open>agentic-commerce-system/\<close>. Its state has no reducer on \<open>tools_called\<close> and
  \<open>evidence\<close>, so an update replaces them; its edge out of the tool executor looks at
  the intent; its \<open>product_search\<close> is one filter; its \<open>order_cancel\<close> does not validate the
  order id, lets the exceptions of the store and of the timestamp parser escape, and
  returns fewer fields.
\<close>

definition legacy_apply_tool_update :: "agent_state \<Rightarrow> tool_update \<Rightarrow> agent_state" where
  "legacy_apply_tool_update state u =
     state\<lparr>messages := messages state @ upd_messages u,
           evidence := upd_evidence u,
           tools_called := upd_tools_called u\<rparr>"

definition legacy_route_after_tools :: "agent_state \<Rightarrow> node" where
  "legacy_route_after_tools state =
     (if intent state = Some ''order_help'' then PolicyGuard else Agent)"

definition legacy_product_search ::
  "product list \<Rightarrow> string \<Rightarrow> int \<Rightarrow> string list option \<Rightarrow> product list" where
  "legacy_product_search products query price_max tgs =
     take 2 (sort_key price
       (filter (\<lambda>p. \<not> of_int price_max < price p \<and>
                     contains (lower query) (lower (title p)) \<and>
                     (case tgs of
                        None \<Rightarrow> True
                      | Some ts \<Rightarrow> ts = [] \<or> (\<forall>t \<in> set ts. t \<in> set (tags p))))
               products))"

definition legacy_order_cancel ::
  "dt_lib \<Rightarrow> world \<Rightarrow> string \<Rightarrow> string option \<Rightarrow> exn + dict" where
  "legacy_order_cancel lib w oid simulated_now =
     (case orders_file w of
        FileMissing \<Rightarrow> Inl FileNotFoundError
      | NotJSON \<Rightarrow> Inl JSONDecodeError
      | Parsed orders \<Rightarrow>
         (case find (\<lambda>rec. order_id rec = oid) orders of
            None \<Rightarrow> Inr [(''error'', JStr (''Order '' @ oid @ '' not found.''))]
          | Some order_to_cancel \<Rightarrow>
             (case fromisoformat lib (replace_Z (created_at order_to_cancel)) of
                Inl msg \<Rightarrow> Inl ValueError
              | Inr created \<Rightarrow>
                 (case (case simulated_now of
                          None \<Rightarrow> Inr (Aware (utcnow w) 0)
                        | Some sn \<Rightarrow>
                            if sn = [] then Inr (Aware (utcnow w) 0)
                            else (case fromisoformat lib (replace_Z sn) of
                                    Inl msg \<Rightarrow> Inl ValueError
                                  | Inr t \<Rightarrow> Inr t)) of
                    Inl e \<Rightarrow> Inl e
                  | Inr now \<Rightarrow>
                     (case dt_sub now created of
                        Inl e \<Rightarrow> Inl e
                      | Inr d \<Rightarrow>
                          let time_diff_minutes = total_minutes d
                          in if time_diff_minutes \<le> 60
                             then Inr [(''success'', JBool True),
                                       (''message'', JStr (''Order '' @ oid @
                                          '' has been successfully canceled.''))]
                             else Inr [(''success'', JBool False),
                                       (''reason'', JStr ''Cancellation failed: Order was placed more than 60 minutes ago.''),
                                       (''minutes_since_order'',
                                        JInt (py_int time_diff_minutes))])))))"

section \<open>A sample store\<close>

text \<open>
  The two orders of the policy tests, the timestamps the tests use (microseconds since
  1970-01-01T00:00:00Z), one timestamp written without a UTC offset, which
  \<open>fromisoformat\<close> reads as a naive datetime, and a clock reading of
  2025-09-07T12:30:00Z.
\<close>

definition sample_times :: "(string \<times> pydatetime) list" where
  "sample_times =
     [(''2025-09-06T13:05:00+00:00'', Aware 1757163900000000 0),
      (''2025-09-07T11:55:00+00:00'', Aware 1757246100000000 0),
      (''2025-09-07T12:30:00+00:00'', Aware 1757248200000000 0),
      (''2025-09-07T12:54:59+00:00'', Aware 1757249699000000 0),
      (''2025-09-07T12:55:00+00:00'', Aware 1757249700000000 0),
      (''2025-09-07T12:55:01+00:00'', Aware 1757249701000000 0),
      (''2025-09-07T12:30:00'', Naive 1757248200000000)]"

definition sample_lib :: dt_lib where
  "sample_lib =
     \<lparr>fromisoformat = (\<lambda>s. case map_of sample_times s of
                               Some d \<Rightarrow> Inr d
                             | None \<Rightarrow> Inl (''Invalid isoformat string: '' @ s)),
      isoformat = (\<lambda>d. case map_of (map (\<lambda>(s, t). (t, s)) sample_times) d of
                           Some s \<Rightarrow> s
                         | None \<Rightarrow> [])\<rparr>"

definition sample_orders :: "order list" where
  "sample_orders =
     [\<lparr>order_id = ''A1002'', email = ''alex@example.com'', created_at = ''2025-09-06T13:05:00Z''\<rparr>,
      \<lparr>order_id = ''A1003'', email = ''mira@example.com'', created_at = ''2025-09-07T11:55:00Z''\<rparr>]"

definition sample_world :: world where
  "sample_world = \<lparr>orders_file = Parsed sample_orders, utcnow = 1757248200000000\<rparr>"

text \<open>
  Evidence entries as the tools serialize them, a reply of the generation capability that
  names no known intent, and \<open>json.loads\<close> on these texts.
\<close>

definition sample_evidence_lookup :: string where
  \<open>sample_evidence_lookup =
     ''{"order_id": "A1002", "email": "alex@example.com", "created_at": "2025-09-06T13:05:00Z"}''\<close>

definition sample_evidence_success :: string where
  \<open>sample_evidence_success =
     ''{"success": true, "message": "Order A1003 has been successfully canceled.", "canceled_at": "2025-09-07T12:30:00+00:00", "minutes_since_order": 35.0}''\<close>

definition sample_evidence_blocked :: string where
  \<open>sample_evidence_blocked =
     ''{"success": false, "reason": "Cancellation failed: Order was placed more than 60 minutes ago.", "minutes_since_order": 1405, "policy": "Orders can only be canceled within 60 minutes of placement."}''\<close>

definition sample_reply :: string where
  \<open>sample_reply = ''{"destination": "smalltalk"}''\<close>

definition sample_json_loads :: "string \<Rightarrow> json option" where
  "sample_json_loads =
     map_of
       [(sample_evidence_lookup,
         JObj [(''order_id'', JStr ''A1002''), (''email'', JStr ''alex@example.com''),
               (''created_at'', JStr ''2025-09-06T13:05:00Z'')]),
        (sample_evidence_success,
         JObj [(''success'', JBool True),
               (''message'', JStr ''Order A1003 has been successfully canceled.''),
               (''canceled_at'', JStr ''2025-09-07T12:30:00+00:00''),
               (''minutes_since_order'', JFloat 35)]),
        (sample_evidence_blocked,
         JObj [(''success'', JBool False),
               (''reason'', JStr ''Cancellation failed: Order was placed more than 60 minutes ago.''),
               (''minutes_since_order'', JInt 1405),
               (''policy'', JStr ''Orders can only be canceled within 60 minutes of placement.'')]),
        (sample_reply, JObj [(''destination'', JStr ''smalltalk'')])]"

definition sample_llm :: "string \<Rightarrow> string" where
  "sample_llm question = ''Routing: '' @ sample_reply"

text \<open>A state that reaches the policy guard with the evidence \<open>ev\<close>.\<close>

definition sample_state :: "string list \<Rightarrow> agent_state" where
  "sample_state ev =
     \<lparr>messages = [HumanMessage ''Cancel order A1002 for alex@example.com''],
      intent = Some ''order_help'', tools_called = [''order_lookup'', ''order_cancel''],
      evidence = ev, policy_decision = None, final_message = None\<rparr>"

text \<open>Tool requests, a question, and tools that answer with a fixed text.\<close>

definition sample_lookup_call :: tool_call where
  "sample_lookup_call =
     \<lparr>name = ''order_lookup'',
      args = [(''order_id'', JStr ''A1003''), (''email'', JStr ''mira@example.com'')],
      call_id = ''call_1''\<rparr>"

definition sample_cancel_call :: tool_call where
  "sample_cancel_call =
     \<lparr>name = ''order_cancel'',
      args = [(''order_id'', JStr ''A1003''), (''simulated_now'', JStr ''2025-09-07T12:30:00Z'')],
      call_id = ''call_2''\<rparr>"

definition sample_question :: string where
  "sample_question = ''Cancel order A1003 for mira@example.com''"

definition sample_run_tool :: "tool_call \<Rightarrow> string" where
  "sample_run_tool c = ''result of '' @ name c"

text \<open>The catalog of the search scenario.\<close>

definition sample_midi_95 :: product where
  "sample_midi_95 =
     \<lparr>title = ''Midi Wrap Dress'', price = 95, tags = [''wedding'', ''midi''],
      other_keys = Map.empty\<rparr>"

definition sample_midi_150 :: product where
  "sample_midi_150 =
     \<lparr>title = ''Satin Midi Dress'', price = 150, tags = [''midi'', ''party''],
      other_keys = Map.empty\<rparr>"

section \<open>Rounding to the nearest double\<close>

text \<open>
  Rounding never crosses a double: for a double \<open>T\<close>, \<open>x \<le> T\<close> gives \<open>fl x \<le> T\<close> and
  \<open>T \<le> x\<close> gives \<open>T \<le> fl x\<close>. With the doubles 3600, 60 and their neighbours this
  decides the comparison of the elapsed minutes with 60.
\<close>

lemma rhe_of_int: "rhe (of_int n) = n"
  by (simp add: rhe_def)

lemma rhe_floor_le: "\<lfloor>y\<rfloor> \<le> rhe y"
  by (simp add: rhe_def Let_def)

lemma rhe_le_ceiling: "rhe y \<le> \<lceil>y\<rceil>"
proof -
  have "y \<noteq> of_int \<lfloor>y\<rfloor> \<Longrightarrow> \<lfloor>y\<rfloor> + 1 \<le> \<lceil>y\<rceil>"
    by (simp add: ceiling_altdef)
  moreover have "\<lfloor>y\<rfloor> \<le> \<lceil>y\<rceil>" by (rule floor_le_ceiling)
  ultimately show ?thesis
    by (auto simp: rhe_def Let_def)
qed

lemma rhe_le_int: "y \<le> of_int N \<Longrightarrow> rhe y \<le> N"
  using rhe_le_ceiling [of y] ceiling_le_iff [of y N] by linarith

lemma rhe_ge_int: "of_int N \<le> y \<Longrightarrow> N \<le> rhe y"
  using rhe_floor_le [of y] le_floor_iff [of N y] by linarith

lemma rhe_near: "\<bar>of_int (rhe y) - y\<bar> \<le> 1/2"
proof -
  have "of_int \<lfloor>y\<rfloor> \<le> y" "y < of_int \<lfloor>y\<rfloor> + 1" by linarith+
  then show ?thesis by (auto simp: rhe_def Let_def)
qed

lemma pow2_pos: "0 < pow2 k"
  by (simp add: pow2_def)

lemma pow2_add: "pow2 (a + b) = pow2 a * pow2 b"
  by (simp add: pow2_def power_int_add)

lemma pow2_less: "a < b \<Longrightarrow> pow2 a < pow2 b"
  by (simp add: pow2_def power_int_strict_increasing)

lemma pow2_le: "a \<le> b \<Longrightarrow> pow2 a \<le> pow2 b"
  by (simp add: pow2_def power_int_increasing)

lemma pow2_nat: "pow2 (int n) = 2 ^ n"
  by (simp add: pow2_def)

lemma pow2_le_of_nat_le:
  assumes "0 < (p::int)" "2 ^ k \<le> nat p"
  shows "pow2 (int k) \<le> of_int p"
proof -
  have "int (2 ^ k) \<le> p" using assms by linarith
  then have "(2::int) ^ k \<le> p" by simp
  then have "(of_int ((2::int) ^ k)::rat) \<le> of_int p" by (simp only: of_int_le_iff)
  then show ?thesis by (simp add: pow2_nat)
qed

lemma of_nat_less_pow2:
  assumes "0 < (p::int)" "nat p < 2 ^ k"
  shows "of_int p < pow2 (int k)"
proof -
  have "p < int (2 ^ k)" using assms by linarith
  then have "p < (2::int) ^ k" by simp
  then have "(of_int p::rat) < of_int ((2::int) ^ k)" by (simp only: of_int_less_iff)
  then show ?thesis by (simp add: pow2_nat)
qed

lemma binade_bounds:
  assumes "x \<noteq> 0"
  shows "pow2 (binade x) \<le> \<bar>x\<bar> \<and> \<bar>x\<bar> < pow2 (binade x + 1)"
proof -
  obtain p q where pq: "quotient_of \<bar>x\<bar> = (p, q)" by (cases "quotient_of \<bar>x\<bar>")
  have q: "0 < q" using pq by (rule quotient_of_denom_pos)
  have xpq: "\<bar>x\<bar> = of_int p / of_int q" using pq by (rule quotient_of_div)
  have p: "0 < p"
  proof -
    have "0 < \<bar>x\<bar>" using assms by simp
    then have "(0::rat) < of_int p / of_int q" by (simp add: xpq)
    then show ?thesis using q by (simp add: zero_less_divide_iff)
  qed
  define lp where "lp = floorlog 2 (nat p)"
  define lq where "lq = floorlog 2 (nat q)"
  define a where "a = int lp - int lq"
  have bp: "2 ^ (lp - 1) \<le> nat p \<and> nat p < 2 ^ lp"
    unfolding lp_def using p by (intro floorlog_bounds) auto
  have bq: "2 ^ (lq - 1) \<le> nat q \<and> nat q < 2 ^ lq"
    unfolding lq_def using q by (intro floorlog_bounds) auto
  have lp1: "1 \<le> lp" using bp p by (cases lp) auto
  have lq1: "1 \<le> lq" using bq q by (cases lq) auto
  have ilp: "int (lp - 1) = int lp - 1" using lp1 by simp
  have ilq: "int (lq - 1) = int lq - 1" using lq1 by simp
  have P1: "pow2 (int lp - 1) \<le> of_int p"
    using pow2_le_of_nat_le [OF p, of "lp - 1"] bp unfolding ilp by blast
  have P2: "of_int p < pow2 (int lp)"
    using of_nat_less_pow2 [OF p, of lp] bp by blast
  have Q1: "pow2 (int lq - 1) \<le> of_int q"
    using pow2_le_of_nat_le [OF q, of "lq - 1"] bq unfolding ilq by blast
  have Q2: "of_int q < pow2 (int lq)"
    using of_nat_less_pow2 [OF q, of lq] bq by blast
  have qr: "(0::rat) < of_int q" using q by simp
  have pr: "(0::rat) < of_int p" using p by simp
  have up: "\<bar>x\<bar> < pow2 (a + 1)"
  proof -
    have e: "pow2 (int lp) = pow2 (a + 1) * pow2 (int lq - 1)"
      unfolding a_def by (simp flip: pow2_add)
    have "of_int p / of_int q < pow2 (int lp) / of_int q"
      using P2 qr by (simp add: divide_strict_right_mono)
    also have "\<dots> \<le> pow2 (int lp) / pow2 (int lq - 1)"
      using Q1 qr pow2_pos [of "int lq - 1"] pow2_pos [of "int lp"]
      by (simp add: frac_le)
    also have "\<dots> = pow2 (a + 1)"
      using pow2_pos [of "int lq - 1"] by (simp add: e)
    finally show ?thesis by (simp add: xpq)
  qed
  have low: "pow2 (a - 1) \<le> \<bar>x\<bar>"
  proof -
    have e: "pow2 (int lp - 1) = pow2 (a - 1) * pow2 (int lq)"
      unfolding a_def by (simp flip: pow2_add)
    have "pow2 (a - 1) = pow2 (int lp - 1) / pow2 (int lq)"
      using pow2_pos [of "int lq"] by (simp add: e)
    also have "\<dots> \<le> of_int p / pow2 (int lq)"
      using P1 pow2_pos [of "int lq"] by (simp add: divide_right_mono)
    also have "\<dots> \<le> of_int p / of_int q"
      using Q2 qr pr by (simp add: frac_le)
    finally show ?thesis by (simp add: xpq)
  qed
  have b: "binade x = (if pow2 a \<le> \<bar>x\<bar> then a else a - 1)"
    by (simp add: binade_def pq Let_def a_def lp_def lq_def)
  show ?thesis
    using up low by (auto simp: b)
qed

lemma binade_eqI:
  assumes "pow2 e \<le> \<bar>x\<bar>" "\<bar>x\<bar> < pow2 (e + 1)"
  shows "binade x = e"
proof -
  have "x \<noteq> 0" using assms pow2_pos [of e] by auto
  then have b: "pow2 (binade x) \<le> \<bar>x\<bar>" "\<bar>x\<bar> < pow2 (binade x + 1)"
    using binade_bounds by blast+
  have "pow2 e < pow2 (binade x + 1)" using assms b by linarith
  then have "e < binade x + 1" using pow2_le [of "binade x + 1" e] by (cases "e < binade x + 1") auto
  moreover have "pow2 (binade x) < pow2 (e + 1)" using assms b by linarith
  then have "binade x < e + 1" using pow2_le [of "e + 1" "binade x"] by (cases "binade x < e + 1") auto
  ultimately show ?thesis by simp
qed

lemma pow2_numeral: "pow2 (numeral k) = 2 ^ numeral k" "pow2 (- numeral k) = 1 / 2 ^ numeral k" "pow2 0 = 1"
  by (simp_all add: pow2_def power_int_minus_divide)

lemma fl_unfold: "x \<noteq> 0 \<Longrightarrow> fl x = of_int (rhe (x / pow2 (binade x - 52))) * pow2 (binade x - 52)"
  by (simp add: fl_def Let_def)

lemma fl_fixed:
  assumes "pow2 e \<le> \<bar>x\<bar>" "\<bar>x\<bar> < pow2 (e + 1)" "x = of_int M * pow2 (e - 52)"
  shows "fl x = x"
proof -
  have b: "binade x = e" using assms(1,2) by (rule binade_eqI)
  have nz: "x \<noteq> 0" using assms(1) pow2_pos [of e] by auto
  have "x / pow2 (e - 52) = of_int M"
    using pow2_pos [of "e - 52"] by (simp add: assms(3))
  then show ?thesis
    using nz by (simp add: fl_unfold b rhe_of_int assms(3) [symmetric])
qed

lemma fl_nonpos: "x \<le> 0 \<Longrightarrow> fl x \<le> 0"
proof (cases "x = 0")
  case True
  then show ?thesis by (simp add: fl_def)
next
  case False
  assume "x \<le> 0"
  define u where "u = pow2 (binade x - 52)"
  have u: "0 < u" by (simp add: u_def pow2_pos)
  have "x / u \<le> of_int 0" using \<open>x \<le> 0\<close> u by (simp add: divide_le_0_iff)
  then have "rhe (x / u) \<le> 0" by (rule rhe_le_int)
  then have "of_int (rhe (x / u)) * u \<le> 0"
    using u by (simp add: mult_le_0_iff)
  then show ?thesis using False by (simp add: fl_unfold u_def)
qed

lemma fl_upper:
  assumes "0 < x"
  shows "fl x \<le> pow2 (binade x + 1)"
proof -
  define e where "e = binade x"
  define u where "u = pow2 (e - 52)"
  have u: "0 < u" by (simp add: u_def pow2_pos)
  have x: "x < pow2 (e + 1)" using binade_bounds [of x] assms by (simp add: e_def)
  have s: "pow2 (e + 1) = of_int (2 ^ 53) * u"
  proof -
    have "pow2 (e + 1) = pow2 (53 + (e - 52))" by (rule arg_cong [where f = pow2]) simp
    then have "pow2 (e + 1) = pow2 53 * pow2 (e - 52)" by (simp only: pow2_add)
    moreover have "pow2 53 = of_int (2 ^ 53)" by (simp add: pow2_numeral)
    ultimately show ?thesis by (simp only: u_def)
  qed
  have "x / u \<le> of_int (2 ^ 53)"
    using x u by (simp add: s pos_divide_le_eq)
  then have "rhe (x / u) \<le> 2 ^ 53" by (rule rhe_le_int)
  then have "(of_int (rhe (x / u))::rat) \<le> of_int (2 ^ 53)" by (simp only: of_int_le_iff)
  then have "of_int (rhe (x / u)) * u \<le> of_int (2 ^ 53) * u"
    using u by (simp only: mult_le_cancel_right_pos)
  then show ?thesis using assms by (simp add: fl_unfold s flip: e_def u_def)
qed

lemma fl_lower:
  assumes "0 < x"
  shows "pow2 (binade x) \<le> fl x"
proof -
  define e where "e = binade x"
  define u where "u = pow2 (e - 52)"
  have u: "0 < u" by (simp add: u_def pow2_pos)
  have x: "pow2 e \<le> x" using binade_bounds [of x] assms by (simp add: e_def)
  have s: "pow2 e = of_int (2 ^ 52) * u"
  proof -
    have "pow2 e = pow2 (52 + (e - 52))" by (rule arg_cong [where f = pow2]) simp
    then have "pow2 e = pow2 52 * pow2 (e - 52)" by (simp only: pow2_add)
    moreover have "pow2 52 = of_int (2 ^ 52)" by (simp add: pow2_numeral)
    ultimately show ?thesis by (simp only: u_def)
  qed
  have "of_int (2 ^ 52) \<le> x / u"
    using x u by (simp add: s pos_le_divide_eq)
  then have "2 ^ 52 \<le> rhe (x / u)" by (rule rhe_ge_int)
  then have "(of_int (2 ^ 52)::rat) \<le> of_int (rhe (x / u))" by (simp only: of_int_le_iff)
  then have "of_int (2 ^ 52) * u \<le> of_int (rhe (x / u)) * u"
    using u by (simp only: mult_le_cancel_right_pos)
  then show ?thesis using assms by (simp add: fl_unfold s flip: e_def u_def)
qed

lemma fl_le:
  assumes T: "pow2 e \<le> T" "T < pow2 (e + 1)" "T = of_int N * pow2 (e - 52)"
    and x: "x \<le> T"
  shows "fl x \<le> T"
proof (cases "0 < x")
  case False
  then have "fl x \<le> 0" by (simp add: fl_nonpos)
  moreover have "0 < T" using T(1) pow2_pos [of e] by linarith
  ultimately show ?thesis by simp
next
  case True
  have bx: "pow2 (binade x) \<le> x" "x < pow2 (binade x + 1)"
    using binade_bounds [of x] True by auto
  have "pow2 (binade x) < pow2 (e + 1)" using bx x T by linarith
  then have le: "binade x \<le> e"
    using pow2_le [of "e + 1" "binade x"] by (cases "binade x < e + 1") auto
  show ?thesis
  proof (cases "binade x = e")
    case True
    define u where "u = pow2 (e - 52)"
    have u: "0 < u" by (simp add: u_def pow2_pos)
    have "x / u \<le> of_int N" using x u by (simp add: T(3) pos_divide_le_eq flip: u_def)
    then have "rhe (x / u) \<le> N" by (rule rhe_le_int)
    then have "(of_int (rhe (x / u))::rat) \<le> of_int N" by (simp only: of_int_le_iff)
    then have "of_int (rhe (x / u)) * u \<le> of_int N * u"
      using u by (simp only: mult_le_cancel_right_pos)
    then show ?thesis using \<open>0 < x\<close> by (simp add: fl_unfold True T(3) flip: u_def)
  next
    case False
    then have "binade x + 1 \<le> e" using le by simp
    then have "pow2 (binade x + 1) \<le> pow2 e" by (rule pow2_le)
    then show ?thesis using fl_upper [OF \<open>0 < x\<close>] T(1) by linarith
  qed
qed

lemma fl_ge:
  assumes T: "pow2 e \<le> T" "T < pow2 (e + 1)" "T = of_int N * pow2 (e - 52)"
    and x: "T \<le> x"
  shows "T \<le> fl x"
proof -
  have Tpos: "0 < T" using T(1) pow2_pos [of e] by linarith
  then have xpos: "0 < x" using x by simp
  have bx: "pow2 (binade x) \<le> x" "x < pow2 (binade x + 1)"
    using binade_bounds [of x] xpos by auto
  have "pow2 e < pow2 (binade x + 1)" using bx x T by linarith
  then have le: "e \<le> binade x"
    using pow2_le [of "binade x + 1" e] by (cases "e < binade x + 1") auto
  show ?thesis
  proof (cases "binade x = e")
    case True
    define u where "u = pow2 (e - 52)"
    have u: "0 < u" by (simp add: u_def pow2_pos)
    have "of_int N \<le> x / u" using x u by (simp add: T(3) pos_le_divide_eq flip: u_def)
    then have "N \<le> rhe (x / u)" by (rule rhe_ge_int)
    then have "(of_int N::rat) \<le> of_int (rhe (x / u))" by (simp only: of_int_le_iff)
    then have "of_int N * u \<le> of_int (rhe (x / u)) * u"
      using u by (simp only: mult_le_cancel_right_pos)
    then show ?thesis using xpos by (simp add: fl_unfold True T(3) flip: u_def)
  next
    case False
    then have "e + 1 \<le> binade x" using le by simp
    then have "pow2 (e + 1) \<le> pow2 (binade x)" by (rule pow2_le)
    then show ?thesis using fl_lower [OF xpos] T(2) by linarith
  qed
qed

lemma fl_3600: "x \<le> 3600 \<Longrightarrow> fl x \<le> 3600"
  by (rule fl_le [where e = 11 and N = "3600 * 2 ^ 41"]) (simp_all add: pow2_numeral)

lemma fl_60: "x \<le> 60 \<Longrightarrow> fl x \<le> 60"
  by (rule fl_le [where e = 5 and N = "60 * 2 ^ 47"]) (simp_all add: pow2_numeral)

lemma fl_above_3600: "3600 + 1 / 2 ^ 20 \<le> x \<Longrightarrow> 3600 + 1 / 2 ^ 20 \<le> fl x"
  by (rule fl_ge [where e = 11 and N = "3600 * 2 ^ 41 + 2 ^ 21"]) (simp_all add: pow2_numeral)

lemma fl_above_60: "60 + 1 / 2 ^ 26 \<le> x \<Longrightarrow> 60 + 1 / 2 ^ 26 \<le> fl x"
  by (rule fl_ge [where e = 5 and N = "60 * 2 ^ 47 + 2 ^ 21"]) (simp_all add: pow2_numeral)

lemma total_minutes_le_60_iff: "total_minutes d \<le> 60 \<longleftrightarrow> d \<le> 3600000000"
proof
  assume "d \<le> 3600000000"
  then have "(of_int d :: rat) \<le> of_int 3600000000" by (simp only: of_int_le_iff)
  then have "(of_int d :: rat) / 10 ^ 6 \<le> 3600" by simp
  then have "fl (of_int d / 10 ^ 6) \<le> 3600" by (rule fl_3600)
  then have "fl (of_int d / 10 ^ 6) / 60 \<le> 60" by simp
  then show "total_minutes d \<le> 60" unfolding total_minutes_def by (rule fl_60)
next
  assume m: "total_minutes d \<le> 60"
  show "d \<le> 3600000000"
  proof (rule ccontr)
    assume "\<not> d \<le> 3600000000"
    then have "3600000001 \<le> d" by simp
    then have "(of_int 3600000001 :: rat) \<le> of_int d" by (simp only: of_int_le_iff)
    then have "3600 + 1 / 2 ^ 20 \<le> (of_int d :: rat) / 10 ^ 6" by simp
    then have "3600 + 1 / 2 ^ 20 \<le> fl (of_int d / 10 ^ 6)" by (rule fl_above_3600)
    then have "60 + 1 / 2 ^ 26 \<le> fl (of_int d / 10 ^ 6) / 60" by simp
    then have "60 + 1 / 2 ^ 26 \<le> total_minutes d" unfolding total_minutes_def by (rule fl_above_60)
    then show False using m by simp
  qed
qed

section \<open>The cancellation policy tool: the time window\<close>

text \<open>
  Once the order is found and both timestamps parse to datetimes that can be subtracted,
  the result depends only on the timedelta \<open>d\<close>, in microseconds: the float
  comparison \<open>time_diff_minutes <= 60\<close> decides exactly as \<open>d \<le> 3600000000\<close>.
\<close>

lemma order_cancel_resolved:
  assumes "validate_order_id oid"
    and "orders_file w = Parsed orders"
    and "find (\<lambda>rec. order_id rec = oid) orders = Some ord"
    and "fromisoformat lib (replace_Z (created_at ord)) = Inr created"
    and "sn \<noteq> []"
    and "fromisoformat lib (replace_Z sn) = Inr now"
    and "dt_sub now created = Inr d"
  shows "order_cancel lib w oid (Some sn) =
           (if d \<le> 3600000000 then Inr (success_result lib oid now (total_minutes d))
            else Inr (blocked_result (total_minutes d)))"
  using assms by (simp add: order_cancel_def Let_def total_minutes_le_60_iff)

text \<open>The same with no reference time, or an empty one: the clock is read.\<close>

lemma order_cancel_resolved_clock:
  assumes "validate_order_id oid"
    and "orders_file w = Parsed orders"
    and "find (\<lambda>rec. order_id rec = oid) orders = Some ord"
    and "fromisoformat lib (replace_Z (created_at ord)) = Inr created"
    and "simulated_now = None \<or> simulated_now = Some []"
    and "dt_sub (Aware (utcnow w) 0) created = Inr d"
  shows "order_cancel lib w oid simulated_now =
           (if d \<le> 3600000000
            then Inr (success_result lib oid (Aware (utcnow w) 0) (total_minutes d))
            else Inr (blocked_result (total_minutes d)))"
  using assms by (auto simp: order_cancel_def Let_def total_minutes_le_60_iff)

text \<open>
  Conversely, a call that returns either returns one of the error results, or has found
  the order, parsed both timestamps and subtracted them, and its result is the one that
  the timedelta \<open>d\<close> selects.
\<close>

lemma order_cancel_trace:
  assumes "order_cancel lib w oid simulated_now = Inr r"
  shows "(\<exists>msg. r = [(''success'', JBool False), (''error'', JStr msg)]) \<or>
         (\<exists>orders ord created now d.
            validate_order_id oid \<and>
            orders_file w = Parsed orders \<and>
            find (\<lambda>rec. order_id rec = oid) orders = Some ord \<and>
            fromisoformat lib (replace_Z (created_at ord)) = Inr created \<and>
            ((simulated_now = None \<or> simulated_now = Some []) \<and> now = Aware (utcnow w) 0 \<or>
             (\<exists>sn. simulated_now = Some sn \<and> sn \<noteq> [] \<and>
                   fromisoformat lib (replace_Z sn) = Inr now)) \<and>
            dt_sub now created = Inr d \<and>
            r = (if d \<le> 3600000000 then success_result lib oid now (total_minutes d)
                 else blocked_result (total_minutes d)))"
  using assms
  by (auto simp: order_cancel_def Let_def total_minutes_le_60_iff
        invalid_id_result_def store_error_result_def not_found_result_def
        timestamp_error_result_def bad_timestamp_result_def
        split: if_splits orders_json.splits option.splits sum.splits)

lemma reason_mentions_60_minutes:
  "contains ''60 minutes'' ''Cancellation failed: Order was placed more than 60 minutes ago.''"
  by simp

lemma sample_valid: "validate_order_id ''A1003''"
  by (simp add: validate_order_id_def is_digit_def)

lemma sample_find:
  "find (\<lambda>rec. order_id rec = ''A1003'') sample_orders =
     Some \<lparr>order_id = ''A1003'', email = ''mira@example.com'', created_at = ''2025-09-07T11:55:00Z''\<rparr>"
  by (simp add: sample_orders_def)

lemma sample_parse:
  "fromisoformat sample_lib (replace_Z ''2025-09-07T11:55:00Z'') = Inr (Aware 1757246100000000 0)"
  "fromisoformat sample_lib (replace_Z ''2025-09-07T12:55:00Z'') = Inr (Aware 1757249700000000 0)"
  "fromisoformat sample_lib (replace_Z ''2025-09-07T12:55:01Z'') = Inr (Aware 1757249701000000 0)"
  "fromisoformat sample_lib (replace_Z ''2025-09-07T12:54:59Z'') = Inr (Aware 1757249699000000 0)"
  "fromisoformat sample_lib (replace_Z ''2025-09-07T12:30:00Z'') = Inr (Aware 1757248200000000 0)"
  "fromisoformat sample_lib (replace_Z ''2025-09-06T13:05:00Z'') = Inr (Aware 1757163900000000 0)"
  by (simp_all add: sample_lib_def sample_times_def replace_Z_def)

lemma total_minutes_35: "total_minutes 2100000000 = 35"
proof -
  have a: "fl 2100 = 2100"
    by (rule fl_fixed [where e = 11 and M = "2100 * 2 ^ 41"]) (simp_all add: pow2_numeral)
  have b: "fl 35 = 35"
    by (rule fl_fixed [where e = 5 and M = "35 * 2 ^ 47"]) (simp_all add: pow2_numeral)
  show ?thesis by (simp add: total_minutes_def a b)
qed

lemma total_minutes_1405: "total_minutes 84300000000 = 1405"
proof -
  have a: "fl 84300 = 84300"
    by (rule fl_fixed [where e = 16 and M = "84300 * 2 ^ 36"]) (simp_all add: pow2_numeral)
  have b: "fl 1405 = 1405"
    by (rule fl_fixed [where e = 10 and M = "1405 * 2 ^ 42"]) (simp_all add: pow2_numeral)
  show ?thesis by (simp add: total_minutes_def a b)
qed

lemma sample_valid_1002: "validate_order_id ''A1002''"
  by (simp add: validate_order_id_def is_digit_def)

lemma sample_find_1002:
  "find (\<lambda>rec. order_id rec = ''A1002'') sample_orders =
     Some \<lparr>order_id = ''A1002'', email = ''alex@example.com'', created_at = ''2025-09-06T13:05:00Z''\<rparr>"
  by (simp add: sample_orders_def)

text \<open>
  For an order of the store created at \<open>created\<close> and a supplied reference time \<open>now\<close>
  that can be subtracted from it, \<open>order_cancel\<close> returns a result whose \<open>success\<close> is
  true if and only if \<open>now - created\<close> is at most 60 minutes (3600000000
  microseconds), the bound included; beyond 60 minutes the result has a \<open>reason\<close> that
  contains "60 minutes".
\<close>

theorem order_cancel_boundary:
  assumes "validate_order_id oid"
    and "orders_file w = Parsed orders"
    and "find (\<lambda>rec. order_id rec = oid) orders = Some ord"
    and "fromisoformat lib (replace_Z (created_at ord)) = Inr created"
    and "sn \<noteq> []"
    and "fromisoformat lib (replace_Z sn) = Inr now"
    and "dt_sub now created = Inr d"
  shows "\<exists>r. order_cancel lib w oid (Some sn) = Inr r \<and>
             map_of r ''success'' = Some (JBool (d \<le> 60 * 60 * 10 ^ 6)) \<and>
             (60 * 60 * 10 ^ 6 < d \<longrightarrow>
                (\<exists>reason. map_of r ''reason'' = Some (JStr reason) \<and>
                           contains ''60 minutes'' reason))"
proof (cases "d \<le> 3600000000")
  case True
  then show ?thesis
    using order_cancel_resolved [OF assms] by (simp add: success_result_def)
next
  case False
  then show ?thesis
    using order_cancel_resolved [OF assms] reason_mentions_60_minutes
    by (simp add: blocked_result_def)
qed

text \<open>
  The boundary on order A1003, created at 11:55:00: 60 minutes later and one second
  before that the cancellation succeeds, one second after it is blocked.
\<close>

theorem order_cancel_boundary_witness:
  "(\<exists>r. order_cancel sample_lib sample_world ''A1003'' (Some ''2025-09-07T12:55:00Z'') = Inr r \<and>
        map_of r ''success'' = Some (JBool True)) \<and>
   (\<exists>r. order_cancel sample_lib sample_world ''A1003'' (Some ''2025-09-07T12:54:59Z'') = Inr r \<and>
        map_of r ''success'' = Some (JBool True)) \<and>
   (\<exists>r reason. order_cancel sample_lib sample_world ''A1003'' (Some ''2025-09-07T12:55:01Z'') = Inr r \<and>
        map_of r ''success'' = Some (JBool False) \<and>
        map_of r ''reason'' = Some (JStr reason) \<and> contains ''60 minutes'' reason)"
proof -
  have w: "orders_file sample_world = Parsed sample_orders"
    by (simp add: sample_world_def)
  have c: "created_at \<lparr>order_id = ''A1003'', email = ''mira@example.com'',
                       created_at = ''2025-09-07T11:55:00Z''\<rparr> = ''2025-09-07T11:55:00Z''"
    by simp
  note base = order_cancel_boundary [OF sample_valid w sample_find, unfolded c, OF sample_parse(1)]
  have a: "dt_sub (Aware 1757249700000000 0) (Aware 1757246100000000 0) = Inr 3600000000"
    by simp
  have b: "dt_sub (Aware 1757249699000000 0) (Aware 1757246100000000 0) = Inr 3599000000"
    by simp
  have e: "dt_sub (Aware 1757249701000000 0) (Aware 1757246100000000 0) = Inr 3601000000"
    by simp
  show ?thesis
    using base [OF _ sample_parse(2) a] base [OF _ sample_parse(4) b]
      base [OF _ sample_parse(3) e]
    by simp
qed

section \<open>The cancellation policy tool: reference times without a UTC offset\<close>

text \<open>
  The creation times of the store end in \<open>Z\<close> and parse to aware datetimes. A reference
  time written without an offset parses to a naive datetime, \<open>now - created_at\<close> raises
  \<open>TypeError\<close>, and the handlers of \<open>order_cancel\<close> catch \<open>ValueError\<close> and
  \<open>KeyError\<close> only.
\<close>

lemma order_cancel_mixed_datetimes:
  assumes "validate_order_id oid"
    and "orders_file w = Parsed orders"
    and "find (\<lambda>rec. order_id rec = oid) orders = Some ord"
    and "fromisoformat lib (replace_Z (created_at ord)) = Inr (Aware c off)"
    and "sn \<noteq> []"
    and "fromisoformat lib (replace_Z sn) = Inr (Naive t)"
  shows "order_cancel lib w oid (Some sn) = Inl TypeError"
  using assms by (simp add: order_cancel_def)

text \<open>
  Claim C1. A supplied reference time is not always answered with a result. Order A1003
  was created at 2025-09-07T11:55:00Z; the reference time 2025-09-07T12:30:00, written
  without an offset and 35 minutes later on the wall clock, is accepted by
  \<open>fromisoformat\<close> as a naive datetime, and \<open>order_cancel\<close> raises \<open>TypeError\<close>
  where a successful result is due.
\<close>

theorem order_cancel_naive_reference_time_raises:
  "fromisoformat sample_lib (replace_Z ''2025-09-07T12:30:00'') = Inr (Naive 1757248200000000) \<and>
   order_cancel sample_lib sample_world ''A1003'' (Some ''2025-09-07T12:30:00'') = Inl TypeError"
  by (simp add: order_cancel_def validate_order_id_def is_digit_def sample_world_def
        sample_orders_def sample_lib_def sample_times_def replace_Z_def)

section \<open>The cancellation policy tool: the fields of the result\<close>

lemma py_round1_near:
  "\<exists>k. py_round1 x = fl (of_int k / 10) \<and> \<bar>of_int k / 10 - x\<bar> \<le> 1 / 20"
proof -
  have "\<bar>of_int (rhe (x * 10)) - x * 10\<bar> \<le> 1 / 2" by (rule rhe_near)
  then have "of_int (rhe (x * 10)) - x * 10 \<le> 1 / 2 \<and> - (of_int (rhe (x * 10)) - x * 10) \<le> 1 / 2"
    by (simp only: abs_le_iff)
  then have "of_int (rhe (x * 10)) / 10 - x \<le> 1 / 20 \<and> - (of_int (rhe (x * 10)) / 10 - x) \<le> 1 / 20"
    by linarith
  then have "\<bar>of_int (rhe (x * 10)) / 10 - x\<bar> \<le> 1 / 20" by (simp only: abs_le_iff)
  then show ?thesis unfolding py_round1_def by blast
qed

lemma py_int_truncates:
  assumes "60 < x"
  shows "of_int (py_int x) \<le> x \<and> x < of_int (py_int x) + 1 \<and> 60 \<le> py_int x"
proof -
  have "py_int x = \<lfloor>x\<rfloor>" using assms by (simp add: py_int_def)
  moreover have "60 \<le> \<lfloor>x\<rfloor>" using assms by (simp add: le_floor_iff)
  moreover have "of_int \<lfloor>x\<rfloor> \<le> x" "x < of_int \<lfloor>x\<rfloor> + 1" by linarith+
  ultimately show ?thesis by simp
qed

text \<open>
  Claim C5. Every \<open>order_cancel\<close> call that returns a successful result, with a
  reference time or on the clock, has found the order and measured a timedelta \<open>d\<close>
  of at most 60 minutes, and its result carries the confirmation message, the
  cancellation timestamp and the elapsed minutes rounded to one decimal (the double
  nearest to \<open>k / 10\<close>, with \<open>k / 10\<close> within 0.05 of the elapsed minutes). Every call
  that returns a failure that is not an error has measured more than 60 minutes, and its
  result carries the reason, the fixed policy statement and the elapsed minutes
  truncated to an integer, which is at least 60.
\<close>

theorem order_cancel_result_fields:
  assumes "order_cancel lib w oid simulated_now = Inr r"
  shows "(map_of r ''success'' = Some (JBool True) \<longrightarrow>
            (\<exists>orders ord created now d k.
               orders_file w = Parsed orders \<and>
               find (\<lambda>rec. order_id rec = oid) orders = Some ord \<and>
               fromisoformat lib (replace_Z (created_at ord)) = Inr created \<and>
               ((simulated_now = None \<or> simulated_now = Some []) \<and> now = Aware (utcnow w) 0 \<or>
                (\<exists>sn. simulated_now = Some sn \<and> sn \<noteq> [] \<and>
                      fromisoformat lib (replace_Z sn) = Inr now)) \<and>
               dt_sub now created = Inr d \<and> d \<le> 60 * 60 * 10 ^ 6 \<and>
               r = [(''success'', JBool True),
                    (''message'', JStr (''Order '' @ oid @ '' has been successfully canceled.'')),
                    (''canceled_at'', JStr (isoformat lib now)),
                    (''minutes_since_order'', JFloat (fl (of_int k / 10)))] \<and>
               \<bar>of_int k / 10 - total_minutes d\<bar> \<le> 1 / 20)) \<and>
         (map_of r ''success'' = Some (JBool False) \<and> map_of r ''error'' = None \<longrightarrow>
            (\<exists>orders ord created now d n.
               orders_file w = Parsed orders \<and>
               find (\<lambda>rec. order_id rec = oid) orders = Some ord \<and>
               fromisoformat lib (replace_Z (created_at ord)) = Inr created \<and>
               ((simulated_now = None \<or> simulated_now = Some []) \<and> now = Aware (utcnow w) 0 \<or>
                (\<exists>sn. simulated_now = Some sn \<and> sn \<noteq> [] \<and>
                      fromisoformat lib (replace_Z sn) = Inr now)) \<and>
               dt_sub now created = Inr d \<and> 60 * 60 * 10 ^ 6 < d \<and>
               r = [(''success'', JBool False),
                    (''reason'', JStr ''Cancellation failed: Order was placed more than 60 minutes ago.''),
                    (''minutes_since_order'', JInt n),
                    (''policy'', JStr ''Orders can only be canceled within 60 minutes of placement.'')] \<and>
               of_int n \<le> total_minutes d \<and> total_minutes d < of_int n + 1 \<and> 60 \<le> n))"
proof -
  consider (err) msg where "r = [(''success'', JBool False), (''error'', JStr msg)]"
    | (cmp) orders ord created now d where
        "orders_file w = Parsed orders"
        "find (\<lambda>rec. order_id rec = oid) orders = Some ord"
        "fromisoformat lib (replace_Z (created_at ord)) = Inr created"
        "(simulated_now = None \<or> simulated_now = Some []) \<and> now = Aware (utcnow w) 0 \<or>
         (\<exists>sn. simulated_now = Some sn \<and> sn \<noteq> [] \<and> fromisoformat lib (replace_Z sn) = Inr now)"
        "dt_sub now created = Inr d"
        "r = (if d \<le> 3600000000 then success_result lib oid now (total_minutes d)
              else blocked_result (total_minutes d))"
    using order_cancel_trace [OF assms] by blast
  then show ?thesis
  proof cases
    case err
    then show ?thesis by simp
  next
    case cmp
    show ?thesis
    proof (cases "d \<le> 3600000000")
      case True
      obtain k where k: "py_round1 (total_minutes d) = fl (of_int k / 10)"
        "\<bar>of_int k / 10 - total_minutes d\<bar> \<le> 1 / 20"
        using py_round1_near by blast
      have r: "r = [(''success'', JBool True),
                    (''message'', JStr (''Order '' @ oid @ '' has been successfully canceled.'')),
                    (''canceled_at'', JStr (isoformat lib now)),
                    (''minutes_since_order'', JFloat (fl (of_int k / 10)))]"
        using cmp(6) True k(1) by (simp add: success_result_def)
      have d: "d \<le> 60 * 60 * 10 ^ 6" using True by simp
      have first: "\<exists>orders ord created now d k.
               orders_file w = Parsed orders \<and>
               find (\<lambda>rec. order_id rec = oid) orders = Some ord \<and>
               fromisoformat lib (replace_Z (created_at ord)) = Inr created \<and>
               ((simulated_now = None \<or> simulated_now = Some []) \<and> now = Aware (utcnow w) 0 \<or>
                (\<exists>sn. simulated_now = Some sn \<and> sn \<noteq> [] \<and>
                      fromisoformat lib (replace_Z sn) = Inr now)) \<and>
               dt_sub now created = Inr d \<and> d \<le> 60 * 60 * 10 ^ 6 \<and>
               r = [(''success'', JBool True),
                    (''message'', JStr (''Order '' @ oid @ '' has been successfully canceled.'')),
                    (''canceled_at'', JStr (isoformat lib now)),
                    (''minutes_since_order'', JFloat (fl (of_int k / 10)))] \<and>
               \<bar>of_int k / 10 - total_minutes d\<bar> \<le> 1 / 20"
        using cmp(1-5) d r k(2) by blast
      have "map_of r ''success'' \<noteq> Some (JBool False)" by (simp add: r)
      then show ?thesis using first by blast
    next
      case False
      then have "60 < total_minutes d" using total_minutes_le_60_iff [of d] by simp
      then have t: "of_int (py_int (total_minutes d)) \<le> total_minutes d \<and>
                    total_minutes d < of_int (py_int (total_minutes d)) + 1 \<and>
                    60 \<le> py_int (total_minutes d)"
        by (rule py_int_truncates)
      have r: "r = [(''success'', JBool False),
                    (''reason'', JStr ''Cancellation failed: Order was placed more than 60 minutes ago.''),
                    (''minutes_since_order'', JInt (py_int (total_minutes d))),
                    (''policy'', JStr ''Orders can only be canceled within 60 minutes of placement.'')]"
        using cmp(6) False by (simp add: blocked_result_def)
      have d: "60 * 60 * 10 ^ 6 < d" using False by simp
      have second: "\<exists>orders ord created now d n.
               orders_file w = Parsed orders \<and>
               find (\<lambda>rec. order_id rec = oid) orders = Some ord \<and>
               fromisoformat lib (replace_Z (created_at ord)) = Inr created \<and>
               ((simulated_now = None \<or> simulated_now = Some []) \<and> now = Aware (utcnow w) 0 \<or>
                (\<exists>sn. simulated_now = Some sn \<and> sn \<noteq> [] \<and>
                      fromisoformat lib (replace_Z sn) = Inr now)) \<and>
               dt_sub now created = Inr d \<and> 60 * 60 * 10 ^ 6 < d \<and>
               r = [(''success'', JBool False),
                    (''reason'', JStr ''Cancellation failed: Order was placed more than 60 minutes ago.''),
                    (''minutes_since_order'', JInt n),
                    (''policy'', JStr ''Orders can only be canceled within 60 minutes of placement.'')] \<and>
               of_int n \<le> total_minutes d \<and> total_minutes d < of_int n + 1 \<and> 60 \<le> n"
        using cmp(1-5) d r t by blast
      have "map_of r ''success'' \<noteq> Some (JBool True)" by (simp add: r)
      then show ?thesis using second by blast
    qed
  qed
qed

text \<open>
  At 12:30:00 order A1003 is 35 minutes old and is cancelled. With no reference time and
  the clock at 12:30:00, order A1002 is 1405 minutes old and is blocked.
\<close>

theorem order_cancel_result_fields_witness:
  "(\<exists>k. order_cancel sample_lib sample_world ''A1003'' (Some ''2025-09-07T12:30:00Z'') =
          Inr [(''success'', JBool True),
               (''message'', JStr ''Order A1003 has been successfully canceled.''),
               (''canceled_at'', JStr ''2025-09-07T12:30:00+00:00''),
               (''minutes_since_order'', JFloat (fl (of_int k / 10)))] \<and>
        \<bar>of_int k / 10 - 35\<bar> \<le> (1 / 20 :: rat)) \<and>
   order_cancel sample_lib sample_world ''A1002'' None =
     Inr [(''success'', JBool False),
          (''reason'', JStr ''Cancellation failed: Order was placed more than 60 minutes ago.''),
          (''minutes_since_order'', JInt 1405),
          (''policy'', JStr ''Orders can only be canceled within 60 minutes of placement.'')]"
proof -
  have w: "orders_file sample_world = Parsed sample_orders"
    by (simp add: sample_world_def)
  have clock: "utcnow sample_world = 1757248200000000"
    by (simp add: sample_world_def)
  have c3: "created_at \<lparr>order_id = ''A1003'', email = ''mira@example.com'',
                        created_at = ''2025-09-07T11:55:00Z''\<rparr> = ''2025-09-07T11:55:00Z''"
    by simp
  have c2: "created_at \<lparr>order_id = ''A1002'', email = ''alex@example.com'',
                        created_at = ''2025-09-06T13:05:00Z''\<rparr> = ''2025-09-06T13:05:00Z''"
    by simp
  have a: "dt_sub (Aware 1757248200000000 0) (Aware 1757246100000000 0) = Inr 2100000000"
    by simp
  have b: "dt_sub (Aware (utcnow sample_world) 0) (Aware 1757163900000000 0) = Inr 84300000000"
    by (simp add: clock)
  have iso: "isoformat sample_lib (Aware 1757248200000000 0) = ''2025-09-07T12:30:00+00:00''"
    by (simp add: sample_lib_def sample_times_def)
  have ne: "''2025-09-07T12:30:00Z'' \<noteq> []" by simp
  have r1: "order_cancel sample_lib sample_world ''A1003'' (Some ''2025-09-07T12:30:00Z'') =
              Inr (success_result sample_lib ''A1003'' (Aware 1757248200000000 0)
                     (total_minutes 2100000000))"
    using order_cancel_resolved
            [OF sample_valid w sample_find, unfolded c3, OF sample_parse(1) ne sample_parse(5) a]
    by simp
  have r2: "order_cancel sample_lib sample_world ''A1002'' None =
              Inr (blocked_result (total_minutes 84300000000))"
    using order_cancel_resolved_clock
            [OF sample_valid_1002 w sample_find_1002, unfolded c2, OF sample_parse(6) _ b]
    by simp
  have s1: "map_of (success_result sample_lib ''A1003'' (Aware 1757248200000000 0)
                      (total_minutes 2100000000)) ''success'' = Some (JBool True)"
    by (simp add: success_result_def)
  have s2: "map_of (blocked_result (total_minutes 84300000000)) ''success'' = Some (JBool False) \<and>
            map_of (blocked_result (total_minutes 84300000000)) ''error'' = None"
    by (simp add: blocked_result_def)
  obtain orders ord created now d k where f:
    "orders_file sample_world = Parsed orders"
    "find (\<lambda>rec. order_id rec = ''A1003'') orders = Some ord"
    "fromisoformat sample_lib (replace_Z (created_at ord)) = Inr created"
    "(Some ''2025-09-07T12:30:00Z'' = None \<or> Some ''2025-09-07T12:30:00Z'' = Some []) \<and>
       now = Aware (utcnow sample_world) 0 \<or>
     (\<exists>sn. Some ''2025-09-07T12:30:00Z'' = Some sn \<and> sn \<noteq> [] \<and>
           fromisoformat sample_lib (replace_Z sn) = Inr now)"
    "dt_sub now created = Inr d"
    "success_result sample_lib ''A1003'' (Aware 1757248200000000 0) (total_minutes 2100000000) =
       [(''success'', JBool True),
        (''message'', JStr (''Order '' @ ''A1003'' @ '' has been successfully canceled.'')),
        (''canceled_at'', JStr (isoformat sample_lib now)),
        (''minutes_since_order'', JFloat (fl (of_int k / 10)))]"
    "\<bar>of_int k / 10 - total_minutes d\<bar> \<le> 1 / 20"
    using order_cancel_result_fields [OF r1] s1 by blast
  have "orders = sample_orders" using f(1) w by simp
  then have "ord = \<lparr>order_id = ''A1003'', email = ''mira@example.com'',
                     created_at = ''2025-09-07T11:55:00Z''\<rparr>"
    using f(2) sample_find by simp
  then have "created = Aware 1757246100000000 0" using f(3) sample_parse(1) by simp
  moreover have "now = Aware 1757248200000000 0" using f(4) sample_parse(5) by auto
  ultimately have "d = 2100000000" using f(5) by simp
  then have k: "\<bar>of_int k / 10 - 35\<bar> \<le> (1 / 20 :: rat)"
    using f(7) by (simp add: total_minutes_35)
  have first: "order_cancel sample_lib sample_world ''A1003'' (Some ''2025-09-07T12:30:00Z'') =
          Inr [(''success'', JBool True),
               (''message'', JStr ''Order A1003 has been successfully canceled.''),
               (''canceled_at'', JStr ''2025-09-07T12:30:00+00:00''),
               (''minutes_since_order'', JFloat (fl (of_int k / 10)))]"
    using r1 f(6) \<open>now = Aware 1757248200000000 0\<close> iso by simp
  obtain orders' ord' created' now' d' n where g:
    "orders_file sample_world = Parsed orders'"
    "find (\<lambda>rec. order_id rec = ''A1002'') orders' = Some ord'"
    "fromisoformat sample_lib (replace_Z (created_at ord')) = Inr created'"
    "((None :: string option) = None \<or> None = Some []) \<and> now' = Aware (utcnow sample_world) 0 \<or>
     (\<exists>sn. None = Some sn \<and> sn \<noteq> [] \<and> fromisoformat sample_lib (replace_Z sn) = Inr now')"
    "dt_sub now' created' = Inr d'"
    "blocked_result (total_minutes 84300000000) =
       [(''success'', JBool False),
        (''reason'', JStr ''Cancellation failed: Order was placed more than 60 minutes ago.''),
        (''minutes_since_order'', JInt n),
        (''policy'', JStr ''Orders can only be canceled within 60 minutes of placement.'')]"
    "of_int n \<le> total_minutes d'" "total_minutes d' < of_int n + 1"
    using order_cancel_result_fields [OF r2] s2 by blast
  have "orders' = sample_orders" using g(1) w by simp
  then have "ord' = \<lparr>order_id = ''A1002'', email = ''alex@example.com'',
                      created_at = ''2025-09-06T13:05:00Z''\<rparr>"
    using g(2) sample_find_1002 by simp
  then have "created' = Aware 1757163900000000 0" using g(3) sample_parse(6) by simp
  moreover have "now' = Aware 1757248200000000 0" using g(4) clock by simp
  ultimately have "d' = 84300000000" using g(5) by simp
  then have "of_int n \<le> (1405 :: rat)" "(1405 :: rat) < of_int n + 1"
    using g(7,8) by (simp_all add: total_minutes_1405)
  then have "n = 1405" by linarith
  then have second: "order_cancel sample_lib sample_world ''A1002'' None =
     Inr [(''success'', JBool False),
          (''reason'', JStr ''Cancellation failed: Order was placed more than 60 minutes ago.''),
          (''minutes_since_order'', JInt 1405),
          (''policy'', JStr ''Orders can only be canceled within 60 minutes of placement.'')]"
    using r2 g(6) by simp
  show ?thesis using first k second by blast
qed

section \<open>The cancellation policy tool: repeated calls\<close>

lemma order_cancel_clock_independent:
  "sn \<noteq> [] \<Longrightarrow> order_cancel lib (w\<lparr>utcnow := t\<rparr>) oid (Some sn) = order_cancel lib w oid (Some sn)"
  by (auto simp: order_cancel_def split: orders_json.splits option.splits sum.splits)

text \<open>
  Claim C7. Two calls of \<open>order_cancel\<close> in sequence with the same order id and the same
  supplied reference time return the same result, whatever the clock reads at the second
  call, and the order store after the calls is the store before them.
\<close>

theorem order_cancel_idempotent:
  assumes "sn \<noteq> []"
    and "cancel_twice lib w t oid (Some sn) = (r1, r2, w2)"
  shows "r1 = r2 \<and> orders_file w2 = orders_file w \<and>
         snd (order_cancel_call lib w oid (Some sn)) = w"
  using assms
  by (auto simp: cancel_twice_def order_cancel_call_def order_cancel_clock_independent)

theorem order_cancel_idempotent_witness:
  "\<exists>r. cancel_twice sample_lib sample_world 1757249701000000 ''A1002'' (Some ''2025-09-07T12:30:00Z'')
         = (r, r, sample_world\<lparr>utcnow := 1757249701000000\<rparr>) \<and>
        orders_file (sample_world\<lparr>utcnow := 1757249701000000\<rparr>) = orders_file sample_world"
proof -
  obtain r1 r2 w2 where
    c: "cancel_twice sample_lib sample_world 1757249701000000 ''A1002''
          (Some ''2025-09-07T12:30:00Z'') = (r1, r2, w2)"
    by (cases "cancel_twice sample_lib sample_world 1757249701000000 ''A1002''
                 (Some ''2025-09-07T12:30:00Z'')") auto
  have ne: "''2025-09-07T12:30:00Z'' \<noteq> []" by simp
  have "r1 = r2" using order_cancel_idempotent [OF ne c] by simp
  moreover have "w2 = sample_world\<lparr>utcnow := 1757249701000000\<rparr>"
    using c by (simp add: cancel_twice_def order_cancel_call_def)
  ultimately show ?thesis using c by simp
qed

section \<open>The cancellation policy tool: malformed order ids\<close>

text \<open>
  An ASCII order id that \<open>validate_order_id\<close> rejects is answered with the format error
  before the store is read, and no exception is raised. On an id with other characters
  the digit test of the model is narrower than \<open>\d\<close>, and nothing is stated.
\<close>

lemma order_cancel_rejects_invalid_id:
  assumes "list_all (\<lambda>c. of_char c < (128 :: nat)) oid"
    and "\<not> validate_order_id oid"
  shows "order_cancel lib w oid simulated_now = Inr (invalid_id_result oid)"
  using assms(2) by (simp add: order_cancel_def)

text \<open>
  Claim C6. \<open>validate_order_id\<close> accepts an \<open>A\<close> and four digits followed by a newline,
  which is not an \<open>A\<close> followed by exactly four digits: for that id \<open>order_cancel\<close> goes
  on to the store and answers that the order was not found, not that the format is wrong.
\<close>

theorem order_cancel_accepts_trailing_newline:
  "validate_order_id (''A1234'' @ [CHR 0x0A]) \<and>
   order_cancel sample_lib sample_world (''A1234'' @ [CHR 0x0A]) (Some ''2025-09-07T12:30:00Z'') =
     Inr [(''success'', JBool False),
          (''error'', JStr (''Order A1234'' @ [CHR 0x0A] @ '' not found in the system.''))]"
  by (simp add: validate_order_id_def is_digit_def order_cancel_def sample_world_def
        sample_orders_def not_found_result_def)

section \<open>Product search: the price bound and the result size\<close>

lemma over_price_Some: "\<not> over_price (Some m) p \<longleftrightarrow> price p \<le> of_int m"
  by (auto simp: over_price_def)

lemma strict_matches_prices:
  "p \<in> set (strict_matches products query (Some m) tags_list) \<Longrightarrow> price p \<le> of_int m"
  by (simp add: strict_matches_def over_price_Some)

lemma tag_fallback_prices:
  assumes "\<forall>p \<in> set results. price p \<le> of_int m"
  shows "\<forall>p \<in> set (tag_fallback (Some m) tags_list results ps). price p \<le> of_int m"
  using assms
proof (induction ps arbitrary: results)
  case Nil
  then show ?case by simp
next
  case (Cons a ps)
  show ?case
  proof (cases "over_price (Some m) a")
    case True
    then show ?thesis using Cons by simp
  next
    case False
    then have a: "price a \<le> of_int m" by (simp add: over_price_Some)
    have ext: "\<forall>p \<in> set (results @ [a]). price p \<le> of_int m" using Cons.prems a by simp
    show ?thesis
      using False Cons.IH [OF Cons.prems] Cons.IH [OF ext] Cons.prems ext
      by (auto simp: Let_def)
  qed
qed

lemma broader_results_prices:
  "p \<in> set (broader_results m products results) \<Longrightarrow> price p \<le> of_int m"
  by (simp add: broader_results_def)

lemma search_results_prices:
  assumes "p \<in> set (search_results products query (Some m) tgs)"
  shows "price p \<le> of_int m"
proof -
  define tl where "tl = tags_list_of tgs"
  define r1 where "r1 = strict_matches products query (Some m) tl"
  define r2 where "r2 = (if length r1 < 2 \<and> tl \<noteq> [] \<and> 1 < length tl
                      then tag_fallback (Some m) tl r1 products else r1)"
  have p1: "\<forall>x \<in> set r1. price x \<le> of_int m"
    unfolding r1_def using strict_matches_prices by blast
  have p2: "\<forall>x \<in> set r2. price x \<le> of_int m"
    unfolding r2_def using p1 tag_fallback_prices [OF p1] by simp
  have "search_results products query (Some m) tgs =
          (if length r2 < 2 then r2 @ take (2 - length r2) (broader_results m products r2) else r2)"
    unfolding search_results_def Let_def tl_def r1_def r2_def by simp
  then have "p \<in> set r2 \<or> p \<in> set (take (2 - length r2) (broader_results m products r2))"
    using assms by (auto split: if_splits)
  then show ?thesis
    using p2 broader_results_prices [of p m products r2] by (auto dest: in_set_takeD)
qed

lemma search_results_no_tags:
  "search_results products query (Some m) None =
     (let results = strict_matches products query (Some m) []
      in if length results < 2
         then results @ take (2 - length results) (broader_results m products results)
         else results)"
  by (simp add: search_results_def tags_list_of_def Let_def)

lemma search_results_scenario:
  assumes "price a = 95" "set (tags a) = {''wedding'', ''midi''}" "price b = 150"
  shows "search_results [a, b] ''midi dress'' (Some 120) None = [a]"
    and "search_results [b, a] ''midi dress'' (Some 120) None = [a]"
proof -
  have ab: "a \<noteq> b" using assms(1,3) by auto
  have midi: "''midi'' \<in> set (tags a)" unfolding assms(2) by simp
  have s1: "strict_matches [a, b] ''midi dress'' (Some 120) [] =
           (if contains (lower ''midi dress'') (lower (title a)) then [a] else [])"
    using assms(1,3) by (simp add: strict_matches_def over_price_def)
  have s2: "strict_matches [b, a] ''midi dress'' (Some 120) [] =
           (if contains (lower ''midi dress'') (lower (title a)) then [a] else [])"
    using assms(1,3) by (simp add: strict_matches_def over_price_def)
  have b0: "broader_results 120 [a, b] [] = [a]" "broader_results 120 [b, a] [] = [a]"
    using assms(1,3) midi by (simp_all add: broader_results_def)
  have b1: "broader_results 120 [a, b] [a] = []" "broader_results 120 [b, a] [a] = []"
    using assms(1,3) by (simp_all add: broader_results_def)
  show "search_results [a, b] ''midi dress'' (Some 120) None = [a]"
    unfolding search_results_no_tags s1 by (simp add: b0 b1)
  show "search_results [b, a] ''midi dress'' (Some 120) None = [a]"
    unfolding search_results_no_tags s2 by (simp add: b0 b1)
qed

text \<open>
  Claim C9. With a supplied \<open>price_max\<close>, \<open>product_search\<close> returns at most two products
  and none of them costs more than \<open>price_max\<close>. For the query "midi dress" with
  \<open>price_max\<close> 120 and a catalog of exactly a product at 95 tagged wedding and midi and
  a product at 150, in either order, only the product at 95 is returned.
\<close>

theorem product_search_bounds:
  "length (product_search products query (Some m) tgs) \<le> 2 \<and>
   (\<forall>p \<in> set (product_search products query (Some m) tgs). price p \<le> of_int m) \<and>
   (price a = 95 \<longrightarrow> set (tags a) = {''wedding'', ''midi''} \<longrightarrow> price b = 150 \<longrightarrow>
      product_search [a, b] ''midi dress'' (Some 120) None = [a] \<and>
      product_search [b, a] ''midi dress'' (Some 120) None = [a])"
proof (intro conjI ballI impI)
  show "length (product_search products query (Some m) tgs) \<le> 2"
    by (simp add: product_search_def)
next
  fix p
  assume "p \<in> set (product_search products query (Some m) tgs)"
  then have "p \<in> set (sort_key (relevance (tags_list_of tgs))
                         (search_results products query (Some m) tgs))"
    unfolding product_search_def by (rule in_set_takeD)
  then have "p \<in> set (search_results products query (Some m) tgs)" by simp
  then show "price p \<le> of_int m" by (rule search_results_prices)
next
  assume a: "price a = 95" "set (tags a) = {''wedding'', ''midi''}" "price b = 150"
  show "product_search [a, b] ''midi dress'' (Some 120) None = [a]"
    by (simp add: product_search_def search_results_scenario(1) [OF a])
  show "product_search [b, a] ''midi dress'' (Some 120) None = [a]"
    by (simp add: product_search_def search_results_scenario(2) [OF a])
qed

theorem product_search_bounds_witness:
  "product_search [sample_midi_95, sample_midi_150] ''midi dress'' (Some 120) None = [sample_midi_95] \<and>
   length (product_search [sample_midi_95, sample_midi_150] ''midi dress'' (Some 120) None) \<le> 2 \<and>
   price sample_midi_95 \<le> 120"
proof -
  have a: "price sample_midi_95 = 95" "set (tags sample_midi_95) = {''wedding'', ''midi''}"
    by (auto simp: sample_midi_95_def)
  have b: "price sample_midi_150 = 150" by (simp add: sample_midi_150_def)
  have r: "product_search [sample_midi_95, sample_midi_150] ''midi dress'' (Some 120) None
             = [sample_midi_95]"
    using product_search_bounds [of "[]" "[]" 0 None sample_midi_95 sample_midi_150] a b by blast
  have "\<forall>p \<in> set (product_search [sample_midi_95, sample_midi_150] ''midi dress'' (Some 120) None).
          price p \<le> of_int 120"
    using product_search_bounds
            [of "[sample_midi_95, sample_midi_150]" "''midi dress''" 120 None sample_midi_95 sample_midi_150]
    by blast
  then have "price sample_midi_95 \<le> 120" unfolding r by simp
  then show ?thesis using r by simp
qed

section \<open>The classifier: closure\<close>

lemma rev_dropWhile_rev_prefix: "\<exists>ys. xs = rev (dropWhile P (rev xs)) @ ys"
proof -
  have "rev (dropWhile P (rev xs)) @ rev (takeWhile P (rev xs)) =
          rev (takeWhile P (rev xs) @ dropWhile P (rev xs))"
    by (simp only: rev_append)
  also have "\<dots> = rev (rev xs)" by (simp only: takeWhile_dropWhile_id)
  finally have "xs = rev (dropWhile P (rev xs)) @ rev (takeWhile P (rev xs))" by simp
  then show ?thesis ..
qed

lemma brace_match_starts_with_brace:
  assumes "brace_match reply = Some m"
  shows "\<exists>t. m = CHR 0x7B # t"
proof -
  define rest where "rest = dropWhile (\<lambda>c. c \<noteq> CHR 0x7B) reply"
  have m: "m = rev (dropWhile (\<lambda>c. c \<noteq> CHR 0x7D) (rev rest))" "m \<noteq> []"
    using assms by (auto simp: brace_match_def Let_def rest_def split: if_splits)
  obtain ys where ys: "rest = m @ ys"
    using rev_dropWhile_rev_prefix [of rest "\<lambda>c. c \<noteq> CHR 0x7D"] m(1) by auto
  have "rest \<noteq> []" using ys m(2) by simp
  then have "hd rest = CHR 0x7B"
    using hd_dropWhile [of "\<lambda>c. c \<noteq> CHR 0x7B" reply] unfolding rest_def by simp
  then have "hd m = CHR 0x7B" using ys m(2) by simp
  then show ?thesis using m(2) by (cases m) auto
qed

lemma llm_destination_closed:
  "llm_destination route_json = Inr i \<Longrightarrow> i \<in> set valid_intents"
  by (auto simp: llm_destination_def valid_intents_def
      split: option.splits if_splits bool.splits json.splits)

lemma llm_destination_object:
  "\<exists>i. llm_destination (Some (JObj kv)) = Inr i"
  by (auto simp: llm_destination_def split: option.splits if_splits bool.splits json.splits)

lemma deterministic_keyword_routing_closed:
  "deterministic_keyword_routing q = Some i \<Longrightarrow> i \<in> set valid_intents"
  by (auto simp: deterministic_keyword_routing_def valid_intents_def Let_def split: if_splits)

text \<open>
  Claim C8. For every utterance and every text the generation capability replies with,
  \<open>router_node\<close> returns one of \<open>product_assist\<close>, \<open>order_help\<close> and \<open>other\<close>; when no
  keyword rule fires and the reply holds no object whose \<open>destination\<close> is
  \<open>product_assist\<close> or \<open>order_help\<close>, it returns \<open>other\<close>. The hypothesis on
  \<open>json.loads\<close> is the library's behaviour: a text that starts with an opening brace
  parses to a dict or not at all.
\<close>

theorem router_node_closed:
  assumes "messages s \<noteq> []"
    and "\<forall>t j. json_loads (CHR 0x7B # t) = Some j \<longrightarrow> (\<exists>kv. j = JObj kv)"
  shows "(\<exists>i. router_node json_loads llm s = Inr i \<and>
              (i = ''product_assist'' \<or> i = ''order_help'' \<or> i = ''other'')) \<and>
         (deterministic_keyword_routing (content (last (messages s))) = None \<longrightarrow>
          (\<forall>kv d. extract_json_from_string json_loads (llm (content (last (messages s)))) = Some (JObj kv) \<longrightarrow>
                  map_of kv ''destination'' = Some (JStr d) \<longrightarrow>
                  d \<noteq> ''product_assist'' \<and> d \<noteq> ''order_help'') \<longrightarrow>
          router_node json_loads llm s = Inr ''other'')"
proof -
  define q where "q = content (last (messages s))"
  define route_json where "route_json = extract_json_from_string json_loads (llm q)"
  have shape: "route_json = None \<or> (\<exists>kv. route_json = Some (JObj kv))"
  proof (cases route_json)
    case None
    then show ?thesis by simp
  next
    case (Some j)
    then obtain m where m: "brace_match (llm q) = Some m" "json_loads m = Some j"
      by (auto simp: route_json_def extract_json_from_string_def split: option.splits)
    then obtain t where "m = CHR 0x7B # t" using brace_match_starts_with_brace by blast
    then show ?thesis using m(2) assms(2) Some by auto
  qed
  have total: "\<exists>i. llm_destination route_json = Inr i"
    using shape llm_destination_object by (auto simp: llm_destination_def)
  have r: "router_node json_loads llm s =
             (case deterministic_keyword_routing q of
                Some i \<Rightarrow> Inr i
              | None \<Rightarrow> llm_destination route_json)"
    using assms(1) unfolding q_def route_json_def by (simp add: router_node_def Let_def)
  have first: "\<exists>i. router_node json_loads llm s = Inr i \<and>
                   (i = ''product_assist'' \<or> i = ''order_help'' \<or> i = ''other'')"
  proof (cases "deterministic_keyword_routing q")
    case None
    then show ?thesis
      using total llm_destination_closed [of route_json] by (auto simp: r valid_intents_def)
  next
    case (Some i)
    then show ?thesis
      using deterministic_keyword_routing_closed [of q i] by (auto simp: r valid_intents_def)
  qed
  have second: "router_node json_loads llm s = Inr ''other''"
    if none: "deterministic_keyword_routing q = None"
      and out: "\<forall>kv d. route_json = Some (JObj kv) \<longrightarrow> map_of kv ''destination'' = Some (JStr d) \<longrightarrow>
                  d \<noteq> ''product_assist'' \<and> d \<noteq> ''order_help''"
  proof -
    obtain i where i: "llm_destination route_json = Inr i" using total by blast
    have "i = ''other''"
      using i out shape
      by (auto simp: llm_destination_def valid_intents_def
          split: option.splits if_splits bool.splits json.splits)
    then show ?thesis using none i by (simp add: r)
  qed
  show ?thesis
    using first second unfolding q_def route_json_def by blast
qed

lemma sample_json_loads_objects:
  "\<forall>t j. sample_json_loads (CHR 0x7B # t) = Some j \<longrightarrow> (\<exists>kv. j = JObj kv)"
  by (auto simp: sample_json_loads_def split: if_splits)

lemma sample_no_keyword: "deterministic_keyword_routing ''hello there'' = None"
  by (simp add: deterministic_keyword_routing_def order_keywords_def product_keywords_def
        guardrail_keywords_def lower_def lower_char_def)

lemma sample_extract:
  "extract_json_from_string sample_json_loads (sample_llm q) =
     Some (JObj [(''destination'', JStr ''smalltalk'')])"
  by (simp add: extract_json_from_string_def brace_match_def sample_reply_def sample_llm_def
        sample_json_loads_def sample_evidence_lookup_def sample_evidence_success_def
        sample_evidence_blocked_def)

theorem router_node_closed_witness:
  "router_node sample_json_loads sample_llm
     (initial_state [HumanMessage ''hello there'']) = Inr ''other''"
proof -
  have m: "messages (initial_state [HumanMessage ''hello there'']) \<noteq> []"
    by (simp add: initial_state_def)
  have q: "content (last (messages (initial_state [HumanMessage ''hello there'']))) = ''hello there''"
    by (simp add: initial_state_def)
  show ?thesis
    using router_node_closed [OF m sample_json_loads_objects, of sample_llm]
    unfolding q by (simp add: sample_no_keyword sample_extract)
qed

section \<open>The policy guard\<close>

lemma cancel_shaped_object:
  "cancel_shaped (JObj kv) \<longleftrightarrow> ''success'' \<in> fst ` set kv \<and> ''reason'' \<in> fst ` set kv"
  by (auto simp: cancel_shaped_def split: bool.splits option.splits)

lemma cancel_shaped_list:
  "cancel_shaped (JList xs) \<longleftrightarrow> JStr ''success'' \<in> set xs \<and> JStr ''reason'' \<in> set xs"
  by (auto simp: cancel_shaped_def split: bool.splits option.splits)

lemma cancel_shaped_string:
  "cancel_shaped (JStr t) \<longleftrightarrow> contains ''success'' t \<and> contains ''reason'' t"
  by (auto simp: cancel_shaped_def split: bool.splits option.splits)

lemma cancel_shaped_scalar:
  "\<not> cancel_shaped JNull" "\<not> cancel_shaped (JBool b)" "\<not> cancel_shaped (JInt n)"
  "\<not> cancel_shaped (JFloat x)"
  by (simp_all add: cancel_shaped_def)

lemma find_cancel_output_none:
  assumes "\<forall>e \<in> set ev. \<forall>d. json_loads e = Some d \<longrightarrow> \<not> cancel_shaped d"
  shows "find_cancel_output json_loads ev = None"
  using assms by (induction ev) (auto split: option.splits)

lemma find_cancel_output_first:
  assumes "\<forall>e \<in> set pre. \<forall>d. json_loads e = Some d \<longrightarrow> \<not> cancel_shaped d"
    and "json_loads e = Some d" and "cancel_shaped d"
  shows "find_cancel_output json_loads (pre @ e # post) = Some d"
  using assms by (induction pre) (auto split: option.splits)

text \<open>
  Claim C2, as amended. When the intent is not \<open>order_help\<close> or the evidence is empty
  the policy decision is null. Otherwise the guard takes the first evidence entry whose
  parsed value holds both \<open>success\<close> and \<open>reason\<close>: when there is none the decision is
  null; when that entry is an object, the decision is \<open>cancel_allowed: False\<close> with the
  entry's reason if its \<open>success\<close> is false, and \<open>cancel_allowed: True\<close> for any other
  value of \<open>success\<close>.
\<close>

theorem policy_guard_decision:
  "(intent s \<noteq> Some ''order_help'' \<or> evidence s = [] \<longrightarrow>
      policy_guard_node json_loads s = Inr None) \<and>
   (intent s = Some ''order_help'' \<longrightarrow>
    (\<forall>e \<in> set (evidence s). \<forall>d. json_loads e = Some d \<longrightarrow> \<not> cancel_shaped d) \<longrightarrow>
      policy_guard_node json_loads s = Inr None) \<and>
   (intent s = Some ''order_help'' \<longrightarrow> evidence s = pre @ e # post \<longrightarrow>
    (\<forall>x \<in> set pre. \<forall>d. json_loads x = Some d \<longrightarrow> \<not> cancel_shaped d) \<longrightarrow>
    json_loads e = Some (JObj kv) \<longrightarrow>
    map_of kv ''success'' = Some v \<longrightarrow> map_of kv ''reason'' = Some r \<longrightarrow>
      policy_guard_node json_loads s =
        Inr (Some (if v = JBool False
                   then [(''cancel_allowed'', JBool False), (''reason'', r)]
                   else [(''cancel_allowed'', JBool True)])))"
proof (intro conjI impI)
  assume "intent s \<noteq> Some ''order_help'' \<or> evidence s = []"
  then show "policy_guard_node json_loads s = Inr None"
    by (auto simp: policy_guard_node_def)
next
  assume "intent s = Some ''order_help''"
    and "\<forall>e \<in> set (evidence s). \<forall>d. json_loads e = Some d \<longrightarrow> \<not> cancel_shaped d"
  then show "policy_guard_node json_loads s = Inr None"
    by (simp add: policy_guard_node_def find_cancel_output_none)
next
  assume i: "intent s = Some ''order_help''"
    and ev: "evidence s = pre @ e # post"
    and pre: "\<forall>x \<in> set pre. \<forall>d. json_loads x = Some d \<longrightarrow> \<not> cancel_shaped d"
    and e: "json_loads e = Some (JObj kv)"
    and v: "map_of kv ''success'' = Some v" and r: "map_of kv ''reason'' = Some r"
  have keys: "''success'' \<in> fst ` set kv" "''reason'' \<in> fst ` set kv"
    using v r by (auto dest: map_of_SomeD intro: rev_image_eqI)
  then have "cancel_shaped (JObj kv)" by (simp add: cancel_shaped_object)
  then have f: "find_cancel_output json_loads (evidence s) = Some (JObj kv)"
    unfolding ev using pre e by (intro find_cancel_output_first) auto
  have "kv \<noteq> []" using v by auto
  then show "policy_guard_node json_loads s =
        Inr (Some (if v = JBool False
                   then [(''cancel_allowed'', JBool False), (''reason'', r)]
                   else [(''cancel_allowed'', JBool True)]))"
    by (simp add: policy_guard_node_def i ev f [unfolded ev] v r)
qed

lemma sample_loads:
  "sample_json_loads sample_evidence_lookup =
     Some (JObj [(''order_id'', JStr ''A1002''), (''email'', JStr ''alex@example.com''),
                 (''created_at'', JStr ''2025-09-06T13:05:00Z'')])"
  "sample_json_loads sample_evidence_success =
     Some (JObj [(''success'', JBool True),
                 (''message'', JStr ''Order A1003 has been successfully canceled.''),
                 (''canceled_at'', JStr ''2025-09-07T12:30:00+00:00''),
                 (''minutes_since_order'', JFloat 35)])"
  "sample_json_loads sample_evidence_blocked =
     Some (JObj [(''success'', JBool False),
                 (''reason'', JStr ''Cancellation failed: Order was placed more than 60 minutes ago.''),
                 (''minutes_since_order'', JInt 1405),
                 (''policy'', JStr ''Orders can only be canceled within 60 minutes of placement.'')])"
  by (simp_all add: sample_json_loads_def sample_evidence_lookup_def sample_evidence_success_def
        sample_evidence_blocked_def)

text \<open>
  Evidence that holds only the result of an order lookup has no entry with both keys: the
  decision is null, not \<open>cancel_allowed: True\<close>.
\<close>

theorem policy_guard_null_without_match:
  "policy_guard_node sample_json_loads (sample_state [sample_evidence_lookup]) = Inr None \<and>
   policy_guard_node sample_json_loads (sample_state [sample_evidence_lookup])
     \<noteq> Inr (Some [(''cancel_allowed'', JBool True)])"
  by (simp add: policy_guard_node_def sample_state_def sample_loads cancel_shaped_object)

theorem policy_guard_decision_witness:
  "policy_guard_node sample_json_loads (sample_state [sample_evidence_lookup, sample_evidence_blocked])
     = Inr (Some [(''cancel_allowed'', JBool False),
                  (''reason'', JStr ''Cancellation failed: Order was placed more than 60 minutes ago.'')]) \<and>
   policy_guard_node sample_json_loads (sample_state [sample_evidence_lookup])
     = Inr None \<and>
   policy_guard_node sample_json_loads
     ((sample_state [sample_evidence_lookup, sample_evidence_blocked])\<lparr>intent := Some ''product_assist''\<rparr>)
     = Inr None"
proof -
  have i: "intent (sample_state ev) = Some ''order_help''" for ev
    by (simp add: sample_state_def)
  have ev: "evidence (sample_state [sample_evidence_lookup, sample_evidence_blocked]) =
              [sample_evidence_lookup] @ sample_evidence_blocked # []"
    by (simp add: sample_state_def)
  have pre: "\<forall>x \<in> set [sample_evidence_lookup]. \<forall>d. sample_json_loads x = Some d \<longrightarrow> \<not> cancel_shaped d"
    by (simp add: sample_loads cancel_shaped_object)
  have none: "\<forall>x \<in> set (evidence (sample_state [sample_evidence_lookup])).
                \<forall>d. sample_json_loads x = Some d \<longrightarrow> \<not> cancel_shaped d"
    by (simp add: sample_state_def sample_loads cancel_shaped_object)
  have other: "intent ((sample_state [sample_evidence_lookup, sample_evidence_blocked])
                         \<lparr>intent := Some ''product_assist''\<rparr>) \<noteq> Some ''order_help''"
    by simp
  have a: "policy_guard_node sample_json_loads (sample_state [sample_evidence_lookup, sample_evidence_blocked])
     = Inr (Some [(''cancel_allowed'', JBool False),
                  (''reason'', JStr ''Cancellation failed: Order was placed more than 60 minutes ago.'')])"
    using policy_guard_decision
            [where json_loads = sample_json_loads
               and s = "sample_state [sample_evidence_lookup, sample_evidence_blocked]"
               and pre = "[sample_evidence_lookup]" and e = sample_evidence_blocked and post = "[]"
               and kv = "[(''success'', JBool False),
                          (''reason'', JStr ''Cancellation failed: Order was placed more than 60 minutes ago.''),
                          (''minutes_since_order'', JInt 1405),
                          (''policy'', JStr ''Orders can only be canceled within 60 minutes of placement.'')]"
               and v = "JBool False"
               and r = "JStr ''Cancellation failed: Order was placed more than 60 minutes ago.''"]
      i ev pre sample_loads(3)
    by simp
  have b: "policy_guard_node sample_json_loads (sample_state [sample_evidence_lookup]) = Inr None"
    using policy_guard_decision
            [where json_loads = sample_json_loads and s = "sample_state [sample_evidence_lookup]"]
      i none
    by blast
  have c: "policy_guard_node sample_json_loads
     ((sample_state [sample_evidence_lookup, sample_evidence_blocked])\<lparr>intent := Some ''product_assist''\<rparr>)
     = Inr None"
    using policy_guard_decision
            [where json_loads = sample_json_loads
               and s = "(sample_state [sample_evidence_lookup, sample_evidence_blocked])
                          \<lparr>intent := Some ''product_assist''\<rparr>"]
      other
    by blast
  show ?thesis using a b c by blast
qed

lemma order_cancel_results:
  assumes "order_cancel lib w oid simulated_now = Inr r"
  shows "r = invalid_id_result oid \<or> r = store_error_result \<or> r = not_found_result oid \<or>
         (\<exists>msg. r = timestamp_error_result msg) \<or> (\<exists>sn. r = bad_timestamp_result sn) \<or>
         (\<exists>now m. r = success_result lib oid now m) \<or> (\<exists>m. r = blocked_result m)"
  using assms
  by (auto simp: order_cancel_def Let_def
        split: if_splits orders_json.splits option.splits sum.splits)

lemma order_cancel_success_keys:
  assumes "order_cancel lib w oid simulated_now = Inr r"
    and "map_of r ''success'' = Some (JBool True)"
  shows "map_of r ''message'' \<noteq> None \<and> map_of r ''reason'' = None"
  using order_cancel_results [OF assms(1)] assms(2)
  by (auto simp: invalid_id_result_def store_error_result_def not_found_result_def
        timestamp_error_result_def bad_timestamp_result_def success_result_def blocked_result_def)

lemma tool_evidence_not_cancel_shaped:
  assumes "tool_evidence (Some d)"
  shows "\<not> cancel_shaped d"
  using assms
proof (cases rule: tool_evidence.cases)
  case (search_result products)
  then show ?thesis by (auto simp: cancel_shaped_list)
next
  case (lookup_found rec)
  then show ?thesis by (simp add: cancel_shaped_object)
next
  case (lookup_error msg)
  then show ?thesis by (simp add: cancel_shaped_object)
next
  case (cancel_result lib w oid simulated_now r)
  then show ?thesis
    using order_cancel_results [of lib w oid simulated_now r]
    by (auto simp: cancel_shaped_object invalid_id_result_def store_error_result_def
          not_found_result_def timestamp_error_result_def bad_timestamp_result_def
          success_result_def)
qed

text \<open>
  Claim C10. When the intent is \<open>order_help\<close> and the evidence consists of tool results
  none of which is a blocked cancellation, one of them a successful \<open>order_cancel\<close>
  result, the policy decision is null: the successful result has a \<open>message\<close> key and no
  \<open>reason\<close> key, so it does not pass the guard's test.
\<close>

theorem policy_guard_null_after_successful_cancel:
  assumes "intent s = Some ''order_help''"
    and "\<forall>e \<in> set (evidence s). tool_evidence (json_loads e)"
    and "e \<in> set (evidence s)"
    and "order_cancel lib w oid simulated_now = Inr r"
    and "map_of r ''success'' = Some (JBool True)"
    and "json_loads e = Some (JObj r)"
  shows "policy_guard_node json_loads s = Inr None \<and>
         map_of r ''message'' \<noteq> None \<and> map_of r ''reason'' = None \<and>
         \<not> cancel_shaped (JObj r)"
proof -
  have "\<forall>x \<in> set (evidence s). \<forall>d. json_loads x = Some d \<longrightarrow> \<not> cancel_shaped d"
    using assms(2) tool_evidence_not_cancel_shaped by metis
  then have "find_cancel_output json_loads (evidence s) = None"
    by (rule find_cancel_output_none)
  moreover have "\<not> cancel_shaped (JObj r)"
    using assms(2,3,6) tool_evidence_not_cancel_shaped by metis
  ultimately show ?thesis
    using order_cancel_success_keys [OF assms(4,5)] by (simp add: policy_guard_node_def)
qed

lemma py_round1_35: "py_round1 35 = 35"
proof -
  have "rhe (35 * 10) = 350" using rhe_of_int [of 350] by simp
  moreover have "fl 35 = 35"
    by (rule fl_fixed [where e = 5 and M = "35 * 2 ^ 47"]) (simp_all add: pow2_numeral)
  ultimately show ?thesis by (simp add: py_round1_def)
qed

lemma sample_cancel_success:
  "order_cancel sample_lib sample_world ''A1003'' (Some ''2025-09-07T12:30:00Z'') =
     Inr [(''success'', JBool True),
          (''message'', JStr ''Order A1003 has been successfully canceled.''),
          (''canceled_at'', JStr ''2025-09-07T12:30:00+00:00''),
          (''minutes_since_order'', JFloat 35)]"
proof -
  have w: "orders_file sample_world = Parsed sample_orders"
    by (simp add: sample_world_def)
  have c3: "created_at \<lparr>order_id = ''A1003'', email = ''mira@example.com'',
                        created_at = ''2025-09-07T11:55:00Z''\<rparr> = ''2025-09-07T11:55:00Z''"
    by simp
  have a: "dt_sub (Aware 1757248200000000 0) (Aware 1757246100000000 0) = Inr 2100000000"
    by simp
  have iso: "isoformat sample_lib (Aware 1757248200000000 0) = ''2025-09-07T12:30:00+00:00''"
    by (simp add: sample_lib_def sample_times_def)
  have ne: "''2025-09-07T12:30:00Z'' \<noteq> []" by simp
  show ?thesis
    using order_cancel_resolved
            [OF sample_valid w sample_find, unfolded c3, OF sample_parse(1) ne sample_parse(5) a]
    by (simp add: success_result_def total_minutes_35 py_round1_35 iso)
qed

theorem policy_guard_null_after_successful_cancel_witness:
  "policy_guard_node sample_json_loads
     (sample_state [sample_evidence_lookup, sample_evidence_success]) = Inr None \<and>
   map_of [(''success'', JBool True),
           (''message'', JStr ''Order A1003 has been successfully canceled.''),
           (''canceled_at'', JStr ''2025-09-07T12:30:00+00:00''),
           (''minutes_since_order'', JFloat 35)] ''reason'' = None"
proof -
  let ?s = "sample_state [sample_evidence_lookup, sample_evidence_success]"
  have i: "intent ?s = Some ''order_help''" by (simp add: sample_state_def)
  have l: "tool_evidence (sample_json_loads sample_evidence_lookup)"
    using lookup_found [of "\<lparr>order_id = ''A1002'', email = ''alex@example.com'',
                             created_at = ''2025-09-06T13:05:00Z''\<rparr>"]
    by (simp add: sample_loads)
  have nb: "\<forall>m. [(''success'', JBool True),
          (''message'', JStr ''Order A1003 has been successfully canceled.''),
          (''canceled_at'', JStr ''2025-09-07T12:30:00+00:00''),
          (''minutes_since_order'', JFloat 35)] \<noteq> blocked_result m"
    by (simp add: blocked_result_def)
  have c: "tool_evidence (sample_json_loads sample_evidence_success)"
    using cancel_result [OF sample_cancel_success nb] by (simp add: sample_loads)
  have all: "\<forall>e \<in> set (evidence ?s). tool_evidence (sample_json_loads e)"
    using l c by (simp add: sample_state_def)
  have mem: "sample_evidence_success \<in> set (evidence ?s)" by (simp add: sample_state_def)
  have t: "map_of [(''success'', JBool True),
          (''message'', JStr ''Order A1003 has been successfully canceled.''),
          (''canceled_at'', JStr ''2025-09-07T12:30:00+00:00''),
          (''minutes_since_order'', JFloat 35)] ''success'' = Some (JBool True)"
    by simp
  show ?thesis
    using policy_guard_null_after_successful_cancel
            [OF i all mem sample_cancel_success t sample_loads(2)]
    by blast
qed

section \<open>The graph: the edge out of the tool executor\<close>

lemma last_tool_calls_snoc [simp]:
  "last_tool_calls (ms @ [AIMessage c calls]) = Some calls"
  by (simp add: last_tool_calls_def)

lemma tool_executor_node_Some:
  assumes "tool_executor_node run_tool s = Some u"
  shows "\<exists>calls. last_tool_calls (messages s) = Some calls \<and>
                 upd_tools_called u = map name calls \<and>
                 upd_evidence u = map run_tool calls \<and>
                 upd_messages u = tool_node run_tool calls"
  using assms
  by (auto simp: tool_executor_node_def tool_node_def Let_def comp_def split: option.splits)

inductive_cases step_from_tools: "step json_loads (ToolExecutor, s) c'"

lemma run_no_cancel_before_tools:
  assumes "run json_loads msgs c"
    and "fst c = Router \<or> fst c = Agent \<or> fst c = ToolExecutor"
  shows "''order_cancel'' \<notin> set (tools_called (snd c))"
  using assms
proof (induction rule: run.induct)
  case run_start
  then show ?case by (simp add: initial_state_def)
next
  case (run_step c c')
  from run_step.hyps(2) show ?case
  proof (cases rule: step.cases)
    case (step_router llm s i s' n)
    then show ?thesis using run_step.IH by simp
  next
    case (step_agent s' s reply calls n)
    then show ?thesis using run_step.IH by (simp add: apply_agent_response_def)
  next
    case (step_tools run_tool s u s')
    then show ?thesis using run_step.prems
      by (auto simp: route_after_tools_def split: if_splits)
  next
    case (step_guard s d)
    then show ?thesis using run_step.prems by simp
  next
    case (step_responder s reply)
    then show ?thesis using run_step.prems by simp
  qed
qed

text \<open>
  Claim C3. In every run, the step out of the tool executor goes to the policy guard
  exactly when the batch just executed (the tool calls of the last message) includes
  \<open>order_cancel\<close>, and to the agent otherwise, whatever the intent. The edge function reads
  the accumulated \<open>tools_called\<close>; no earlier round of a run that is still at the tool
  executor has called \<open>order_cancel\<close>.
\<close>

theorem tools_route_by_last_batch:
  assumes "run json_loads msgs (ToolExecutor, s)"
    and "step json_loads (ToolExecutor, s) (n', s')"
  shows "\<exists>calls. last_tool_calls (messages s) = Some calls \<and>
           ((n' = PolicyGuard \<and> ''order_cancel'' \<in> set (map name calls)) \<or>
            (n' = Agent \<and> ''order_cancel'' \<notin> set (map name calls)))"
proof -
  from assms(2) obtain run_tool u where
    u: "tool_executor_node run_tool s = Some u" and
    s': "s' = apply_tool_update s u" and
    n': "n' = route_after_tools s'"
    by (rule step_from_tools) auto
  from u obtain calls where
    calls: "last_tool_calls (messages s) = Some calls" "upd_tools_called u = map name calls"
    using tool_executor_node_Some by blast
  have before: "''order_cancel'' \<notin> set (tools_called s)"
    using run_no_cancel_before_tools [OF assms(1)] by simp
  have "tools_called s' = tools_called s @ map name calls"
    by (simp add: s' apply_tool_update_def calls)
  then show ?thesis
    using before calls(1) by (auto simp: n' route_after_tools_def)
qed

lemma sample_question_routing:
  "deterministic_keyword_routing sample_question = Some ''order_help''"
  by (simp add: deterministic_keyword_routing_def sample_question_def order_keywords_def
        lower_def lower_char_def)

lemma sample_run_to_agent:
  "run sample_json_loads [HumanMessage sample_question]
     (Agent, (initial_state [HumanMessage sample_question])\<lparr>intent := Some ''order_help''\<rparr>)"
proof -
  have "router_node sample_json_loads (\<lambda>q. []) (initial_state [HumanMessage sample_question])
          = Inr ''order_help''"
    by (simp add: router_node_def initial_state_def sample_question_routing)
  then have "step sample_json_loads (Router, initial_state [HumanMessage sample_question])
          (Agent, (initial_state [HumanMessage sample_question])\<lparr>intent := Some ''order_help''\<rparr>)"
    by (rule step_router) (simp_all add: route_after_router_def)
  then show ?thesis using run_start run_step by blast
qed

lemma sample_run_to_tools:
  "run sample_json_loads [HumanMessage sample_question]
     (ToolExecutor,
      apply_agent_response ((initial_state [HumanMessage sample_question])\<lparr>intent := Some ''order_help''\<rparr>)
        (AIMessage [] [c]))"
proof -
  have "step sample_json_loads
          (Agent, (initial_state [HumanMessage sample_question])\<lparr>intent := Some ''order_help''\<rparr>)
          (ToolExecutor,
           apply_agent_response ((initial_state [HumanMessage sample_question])\<lparr>intent := Some ''order_help''\<rparr>)
             (AIMessage [] [c]))"
    by (rule step_agent [OF refl]) (simp add: should_continue_def apply_agent_response_def)
  then show ?thesis using sample_run_to_agent run_step by blast
qed

lemma sample_tools_step:
  "step sample_json_loads
     (ToolExecutor,
      apply_agent_response ((initial_state [HumanMessage sample_question])\<lparr>intent := Some ''order_help''\<rparr>)
        (AIMessage [] [c]))
     (route_after_tools
        (apply_tool_update
           (apply_agent_response ((initial_state [HumanMessage sample_question])\<lparr>intent := Some ''order_help''\<rparr>)
              (AIMessage [] [c]))
           \<lparr>upd_messages = tool_node sample_run_tool [c],
            upd_evidence = map content (tool_node sample_run_tool [c]),
            upd_tools_called = [name c]\<rparr>),
      apply_tool_update
        (apply_agent_response ((initial_state [HumanMessage sample_question])\<lparr>intent := Some ''order_help''\<rparr>)
           (AIMessage [] [c]))
        \<lparr>upd_messages = tool_node sample_run_tool [c],
         upd_evidence = map content (tool_node sample_run_tool [c]),
         upd_tools_called = [name c]\<rparr>)"
  by (rule step_tools [where run_tool = sample_run_tool])
     (simp_all add: tool_executor_node_def apply_agent_response_def Let_def)

text \<open>
  With the intent \<open>order_help\<close>, a batch of one \<open>order_lookup\<close> returns to the agent and a
  batch of one \<open>order_cancel\<close> goes to the policy guard.
\<close>

theorem tools_route_by_last_batch_witness:
  "(\<exists>s s'. run sample_json_loads [HumanMessage sample_question] (ToolExecutor, s) \<and>
            intent s = Some ''order_help'' \<and>
            last_tool_calls (messages s) = Some [sample_lookup_call] \<and>
            step sample_json_loads (ToolExecutor, s) (Agent, s')) \<and>
   (\<exists>s s'. run sample_json_loads [HumanMessage sample_question] (ToolExecutor, s) \<and>
            last_tool_calls (messages s) = Some [sample_cancel_call] \<and>
            step sample_json_loads (ToolExecutor, s) (PolicyGuard, s'))"
proof -
  define s1 where
    "s1 = (initial_state [HumanMessage sample_question])\<lparr>intent := Some ''order_help''\<rparr>"
  define go where "go c = apply_agent_response s1 (AIMessage [] [c])" for c
  define upd where
    "upd c = \<lparr>upd_messages = tool_node sample_run_tool [c],
              upd_evidence = map content (tool_node sample_run_tool [c]),
              upd_tools_called = [name c]\<rparr>" for c
  have r: "run sample_json_loads [HumanMessage sample_question] (ToolExecutor, go c)" for c
    unfolding go_def s1_def by (rule sample_run_to_tools)
  have st: "step sample_json_loads (ToolExecutor, go c)
              (route_after_tools (apply_tool_update (go c) (upd c)), apply_tool_update (go c) (upd c))" for c
    unfolding go_def s1_def upd_def by (rule sample_tools_step)
  have l: "last_tool_calls (messages (go c)) = Some [c]" for c
    by (simp add: go_def apply_agent_response_def)
  have i: "intent (go c) = Some ''order_help''" for c
    by (simp add: go_def s1_def apply_agent_response_def)
  have a: "route_after_tools (apply_tool_update (go sample_lookup_call) (upd sample_lookup_call)) = Agent"
    using tools_route_by_last_batch [OF r st, of sample_lookup_call]
    by (simp add: l sample_lookup_call_def)
  have b: "route_after_tools (apply_tool_update (go sample_cancel_call) (upd sample_cancel_call)) = PolicyGuard"
    using tools_route_by_last_batch [OF r st, of sample_cancel_call]
    by (simp add: l sample_cancel_call_def)
  show ?thesis
    using r [of sample_lookup_call] st [of sample_lookup_call] l [of sample_lookup_call]
      i [of sample_lookup_call] r [of sample_cancel_call] st [of sample_cancel_call]
      l [of sample_cancel_call]
    unfolding a b by blast
qed

section \<open>The graph: accumulation of tool names and evidence\<close>

lemma tool_round_appends:
  "\<exists>s'. tool_round run_tool s reply = Some s' \<and>
        tools_called s' = tools_called s @ map name (snd reply) \<and>
        evidence s' = evidence s @ map run_tool (snd reply) \<and>
        messages s' = messages s @ AIMessage (fst reply) (snd reply) # tool_node run_tool (snd reply) \<and>
        intent s' = intent s"
  by (simp add: tool_round_def tool_executor_node_def apply_agent_response_def
        apply_tool_update_def tool_node_def Let_def comp_def)

lemma tool_rounds_append:
  "\<exists>s'. tool_rounds run_tool s replies = Some s' \<and>
        tools_called s' = tools_called s @ concat (map (\<lambda>r. map name (snd r)) replies) \<and>
        evidence s' = evidence s @ concat (map (\<lambda>r. map run_tool (snd r)) replies)"
proof (induction replies arbitrary: s)
  case Nil
  then show ?case by simp
next
  case (Cons reply replies)
  obtain s1 where s1: "tool_round run_tool s reply = Some s1"
    "tools_called s1 = tools_called s @ map name (snd reply)"
    "evidence s1 = evidence s @ map run_tool (snd reply)"
    using tool_round_appends by blast
  obtain s' where "tool_rounds run_tool s1 replies = Some s'"
    "tools_called s' = tools_called s1 @ concat (map (\<lambda>r. map name (snd r)) replies)"
    "evidence s' = evidence s1 @ concat (map (\<lambda>r. map run_tool (snd r)) replies)"
    using Cons.IH by blast
  then show ?case by (simp add: s1)
qed

lemma length_concat_batches:
  "length (concat (map (\<lambda>r. map f (snd r)) replies)) = sum_list (map (\<lambda>r. length (snd r)) replies)"
  by (induction replies) simp_all

text \<open>
  Claim C4. After any number of tool rounds of a run, \<open>tools_called\<close> holds the names of
  all requests of all rounds in order and \<open>evidence\<close> their results, so both have the
  length of the total number of tool invocations of all rounds.
\<close>

theorem tool_rounds_accumulate:
  "\<exists>s'. tool_rounds run_tool (initial_state msgs) replies = Some s' \<and>
        tools_called s' = concat (map (\<lambda>r. map name (snd r)) replies) \<and>
        evidence s' = concat (map (\<lambda>r. map run_tool (snd r)) replies) \<and>
        length (tools_called s') = length (evidence s') \<and>
        length (tools_called s') = sum_list (map (\<lambda>r. length (snd r)) replies)"
proof -
  obtain s' where s': "tool_rounds run_tool (initial_state msgs) replies = Some s'"
    "tools_called s' = tools_called (initial_state msgs) @ concat (map (\<lambda>r. map name (snd r)) replies)"
    "evidence s' = evidence (initial_state msgs) @ concat (map (\<lambda>r. map run_tool (snd r)) replies)"
    using tool_rounds_append by blast
  then show ?thesis
    by (simp add: initial_state_def length_concat_batches)
qed

theorem tool_rounds_accumulate_witness:
  "\<exists>s'. tool_rounds sample_run_tool (initial_state [HumanMessage sample_question])
           [([], [sample_lookup_call]), ([], [sample_cancel_call, sample_lookup_call])] = Some s' \<and>
        tools_called s' = [''order_lookup'', ''order_cancel'', ''order_lookup''] \<and>
        evidence s' = [''result of order_lookup'', ''result of order_cancel'',
                       ''result of order_lookup''] \<and>
        length (tools_called s') = 3 \<and> length (evidence s') = 3"
  using tool_rounds_accumulate
          [of sample_run_tool "[HumanMessage sample_question]"
              "[([], [sample_lookup_call]), ([], [sample_cancel_call, sample_lookup_call])]"]
  by (auto simp: sample_run_tool_def sample_lookup_call_def sample_cancel_call_def)

text \<open>A tool round is the agent's step followed by the tool executor's step.\<close>

lemma tool_round_is_two_steps:
  assumes "calls \<noteq> []"
  shows "\<exists>s1 s'. tool_round run_tool s (reply, calls) = Some s' \<and>
           step json_loads (Agent, s) (ToolExecutor, s1) \<and>
           step json_loads (ToolExecutor, s1) (route_after_tools s', s')"
proof -
  define s1 where "s1 = apply_agent_response s (AIMessage reply calls)"
  define u where "u = \<lparr>upd_messages = tool_node run_tool calls,
                        upd_evidence = map content (tool_node run_tool calls),
                        upd_tools_called = map name calls\<rparr>"
  have l: "last_tool_calls (messages s1) = Some calls"
    by (simp add: s1_def apply_agent_response_def)
  have t: "tool_executor_node run_tool s1 = Some u"
    by (simp add: tool_executor_node_def l u_def Let_def)
  have a: "step json_loads (Agent, s) (ToolExecutor, s1)"
    using assms by (intro step_agent [where reply = reply and calls = calls])
                    (simp_all add: s1_def should_continue_def l [unfolded s1_def])
  have b: "step json_loads (ToolExecutor, s1)
             (route_after_tools (apply_tool_update s1 u), apply_tool_update s1 u)"
    using t by (rule step_tools) simp
  have "tool_round run_tool s (reply, calls) = Some (apply_tool_update s1 u)"
    using t by (simp add: tool_round_def Let_def s1_def)
  then show ?thesis using a b by blast
qed

lemma run_evidence_aligned:
  assumes "run json_loads msgs c"
  shows "length (tools_called (snd c)) = length (evidence (snd c))"
  using assms
proof (induction rule: run.induct)
  case run_start
  then show ?case by (simp add: initial_state_def)
next
  case (run_step c c')
  from run_step.hyps(2) show ?case
  proof (cases rule: step.cases)
    case (step_tools run_tool s u s')
    then show ?thesis using run_step.IH tool_executor_node_Some [of run_tool s u]
      by (auto simp: apply_tool_update_def)
  qed (use run_step.IH in \<open>auto simp: apply_agent_response_def\<close>)
qed

section \<open>The earlier copy: where it differs\<close>

text \<open>
  In the earlier copy a tool round replaces \<open>tools_called\<close> and \<open>evidence\<close>, the edge
  out of the tool executor follows the intent and not the batch, and \<open>order_cancel\<close>
  answers a malformed id with "not found". Its time window is the same.
\<close>

lemma legacy_update_replaces:
  "tools_called (legacy_apply_tool_update s u) = upd_tools_called u \<and>
   evidence (legacy_apply_tool_update s u) = upd_evidence u"
  by (simp add: legacy_apply_tool_update_def)

lemma legacy_route_by_intent:
  "legacy_route_after_tools s = PolicyGuard \<longleftrightarrow> intent s = Some ''order_help''"
  by (simp add: legacy_route_after_tools_def)

lemma legacy_order_cancel_no_format_check:
  "orders_file w = Parsed [] \<Longrightarrow>
   legacy_order_cancel lib w oid simulated_now = Inr [(''error'', JStr (''Order '' @ oid @ '' not found.''))]"
  by (simp add: legacy_order_cancel_def)

lemma legacy_order_cancel_boundary:
  assumes "orders_file w = Parsed orders"
    and "find (\<lambda>rec. order_id rec = oid) orders = Some ord"
    and "fromisoformat lib (replace_Z (created_at ord)) = Inr created"
    and "sn \<noteq> []"
    and "fromisoformat lib (replace_Z sn) = Inr now"
    and "dt_sub now created = Inr d"
  shows "legacy_order_cancel lib w oid (Some sn) =
           (if d \<le> 3600000000
            then Inr [(''success'', JBool True),
                      (''message'', JStr (''Order '' @ oid @ '' has been successfully canceled.''))]
            else Inr [(''success'', JBool False),
                      (''reason'', JStr ''Cancellation failed: Order was placed more than 60 minutes ago.''),
                      (''minutes_since_order'', JInt (py_int (total_minutes d)))])"
  using assms by (simp add: legacy_order_cancel_def Let_def total_minutes_le_60_iff)

lemma legacy_product_search_bounds:
  "length (legacy_product_search products query m tgs) \<le> 2 \<and>
   (\<forall>p \<in> set (legacy_product_search products query m tgs). price p \<le> of_int m)"
  by (auto simp: legacy_product_search_def dest!: in_set_takeD)

end
